theory Spec2Isabelle
  imports Main
begin

section \<open>Tokens and the lexer interface\<close>

text \<open>
  Modelled from the spec: the token type enumeration of package \<open>lex\<close> is not part of the
  sources at hand. The constructors are the token types the parser and the lexer contract
  name; \<open>TokenOther\<close> stands for every further member of the enumeration.
\<close>

datatype TokenType =
    TokenEOF | TokenEOS | TokenComma | TokenLeftParenthesis | TokenRightParenthesis
  | TokenPlus | TokenMinus | TokenStar | TokenMultiply | TokenDivide | TokenModulus
  | TokenEqual | TokenEqualEqual | TokenNE | TokenGT | TokenGE | TokenLT | TokenLE
  | TokenLike | TokenIN | TokenBetween | TokenAnd | TokenOr | TokenLogicAnd | TokenLogicOr
  | TokenNegate | TokenInteger | TokenFloat | TokenValue | TokenIdentity | TokenUdfExpr
  | TokenSelect | TokenFrom | TokenAs | TokenLimit | TokenIf | TokenCommentSingleLine
  | TokenOther nat

text \<open>
  Modelled from the spec: the zero value of the token type, which a Go struct literal
  gives to a field of that type it does not name, is \<open>TokenNil\<close>, a member of the
  enumeration that no token of a text carries and the parser never names.
\<close>

definition TokenNil :: TokenType where
  "TokenNil = TokenOther 0"

text \<open>
  Modelled from the spec: \<open>lex.Token\<close>, declared in package \<open>lex\<close>, carries a type tag
  \<open>T\<close>, a byte offset \<open>Pos\<close> and the text \<open>V\<close>.
\<close>

record Token =
  T :: TokenType
  Pos :: int
  V :: string

text \<open>
  Modelled from the spec: the lexer is an external collaborator that yields a sequence of
  tokens. It is the stream \<open>source\<close> together with the index \<open>consumed\<close> of the next
  token. Nothing is assumed about the stream, in particular not that it ever yields
  \<open>TokenEOF\<close>.
\<close>

record Lexer =
  source :: "nat \<Rightarrow> Token"
  consumed :: nat

text \<open>
  Modelled from the spec: \<open>NextToken\<close> of the lexer hands out the next token of the stream
  and advances.
\<close>

definition NextToken :: "Lexer \<Rightarrow> Token \<times> Lexer" where
  "NextToken l = (source l (consumed l), l\<lparr>consumed := Suc (consumed l)\<rparr>)"

text \<open>A finite token list as a lexer: after the list it yields \<open>TokenEOF\<close> for ever.\<close>

definition eof_token :: Token where
  "eof_token = \<lparr>T = TokenEOF, Pos = 0, V = []\<rparr>"

definition lexer_of :: "Token list \<Rightarrow> Lexer" where
  "lexer_of ts = \<lparr>source = (\<lambda>i. if i < length ts then ts ! i else eof_token), consumed = 0\<rparr>"

section \<open>The token pager\<close>

text \<open>
  \<open>LexTokenPager\<close>. The fields \<open>done\<close> and \<open>end\<close> of the source are \<open>pdone\<close> and
  \<open>pend\<close> here, and \<open>lex\<close> is \<open>lexer\<close>. The cursor is a Go \<open>int\<close>; it only ever
  moves by one, inside the length of the slice, so it is an unbounded integer here.
\<close>

record LexTokenPager =
  pdone :: bool
  tokens :: "Token list"
  cursor :: int
  lexer :: Lexer
  pend :: TokenType

text \<open>
  A slice index expression \<open>xs[i]\<close> of Go: a run-time panic when \<open>i\<close> is negative or
  not below the length, which is \<open>None\<close> here.
\<close>

definition slice_index :: "'a list \<Rightarrow> int \<Rightarrow> 'a option" where
  "slice_index xs i = (if 0 \<le> i \<and> i < int (length xs) then Some (xs ! nat i) else None)"

text \<open>
  \<open>NewLexTokenPager\<close>: the struct literal names the lexer only, so \<open>done\<close>, \<open>tokens\<close>
  and \<open>end\<close> start at their zero values; then the cursor is set to \<open>-1\<close>.
\<close>

definition NewLexTokenPager :: "Lexer \<Rightarrow> LexTokenPager" where
  "NewLexTokenPager l =
     \<lparr>pdone = False, tokens = [], cursor = - 1, lexer = l, pend = TokenNil\<rparr>"

text \<open>The first statement of \<open>Next\<close>: pull one token from the lexer unless done.\<close>

definition pull :: "LexTokenPager \<Rightarrow> LexTokenPager" where
  "pull m =
     (if \<not> pdone m then
        (let (tok, l) = NextToken (lexer m)
         in m\<lparr>pdone := (T tok = TokenEOF), tokens := tokens m @ [tok], lexer := l\<rparr>)
      else m)"

text \<open>The second statement of \<open>Next\<close>: advance the cursor when a token lies ahead.\<close>

definition advance :: "LexTokenPager \<Rightarrow> LexTokenPager" where
  "advance m =
     (if cursor m + 1 < int (length (tokens m)) then m\<lparr>cursor := cursor m + 1\<rparr> else m)"

definition Next :: "LexTokenPager \<Rightarrow> (Token \<times> LexTokenPager) option" where
  "Next m =
     (let m' = advance (pull m)
      in case slice_index (tokens m') (cursor m') of
           None \<Rightarrow> None
         | Some tok \<Rightarrow> Some (tok, m'))"

definition Cur :: "LexTokenPager \<Rightarrow> (Token \<times> LexTokenPager) option" where
  "Cur m =
     (if cursor m = - 1 then Next m
      else case slice_index (tokens m) (cursor m) of
             None \<Rightarrow> None
           | Some tok \<Rightarrow> Some (tok, m))"

definition Last :: "LexTokenPager \<Rightarrow> TokenType" where
  "Last m = pend m"

definition IsEnd :: "LexTokenPager \<Rightarrow> bool" where
  "IsEnd m = False"

definition Backup :: "LexTokenPager \<Rightarrow> LexTokenPager" where
  "Backup m = (if cursor m > 0 then m\<lparr>cursor := cursor m - 1\<rparr> else m)"

definition Peek :: "LexTokenPager \<Rightarrow> (Token \<times> LexTokenPager) option" where
  "Peek m =
     (if int (length (tokens m)) \<le> cursor m + 1 then
        (case Next m of
           None \<Rightarrow> None
         | Some (tok0, m1) \<Rightarrow>
             (let m2 = m1\<lparr>cursor := cursor m1 - 1\<rparr>
              in case slice_index (tokens m2) (cursor m2 + 1) of
                   None \<Rightarrow> None
                 | Some tok \<Rightarrow> Some (tok, m2)))
      else case slice_index (tokens m) (cursor m + 1) of
             None \<Rightarrow> None
           | Some tok \<Rightarrow> Some (tok, m))"

text \<open>Sequences of pager calls, for statements about every reachable pager state.\<close>

datatype pager_call = CallNext | CallCur | CallPeek | CallBackup

fun run_call :: "pager_call \<Rightarrow> LexTokenPager \<Rightarrow> LexTokenPager option" where
  "run_call CallNext m = map_option snd (Next m)"
| "run_call CallCur m = map_option snd (Cur m)"
| "run_call CallPeek m = map_option snd (Peek m)"
| "run_call CallBackup m = Some (Backup m)"

fun run_calls :: "pager_call list \<Rightarrow> LexTokenPager \<Rightarrow> LexTokenPager option" where
  "run_calls [] m = Some m"
| "run_calls (c # cs) m = (case run_call c m of None \<Rightarrow> None | Some m' \<Rightarrow> run_calls cs m')"

text \<open>
  The invariant of the pager: the cursor lies between \<open>-1\<close> and the last index; a done
  pager has buffered a token; and an end-of-file token in the buffer means done.
\<close>

definition pager_inv :: "LexTokenPager \<Rightarrow> bool" where
  "pager_inv m \<longleftrightarrow>
     - 1 \<le> cursor m \<and> cursor m < int (length (tokens m)) \<and>
     (if pdone m then tokens m \<noteq> [] else TokenEOF \<notin> T ` set (tokens m))"

text \<open>Helpers for concrete runs: a token, and what \<open>Cur\<close> and \<open>Peek\<close> return after a
  sequence of calls on a fresh pager.\<close>

definition mk_token :: "TokenType \<Rightarrow> int \<Rightarrow> string \<Rightarrow> Token" where
  "mk_token ty p s = \<lparr>T = ty, Pos = p, V = s\<rparr>"

definition Cur_after :: "pager_call list \<Rightarrow> Lexer \<Rightarrow> Token option" where
  "Cur_after cs l =
     (case run_calls cs (NewLexTokenPager l) of None \<Rightarrow> None | Some m \<Rightarrow> map_option fst (Cur m))"

definition Peek_after :: "pager_call list \<Rightarrow> Lexer \<Rightarrow> Token option" where
  "Peek_after cs l =
     (case run_calls cs (NewLexTokenPager l) of None \<Rightarrow> None | Some m \<Rightarrow> map_option fst (Peek m))"

section \<open>Dialect writers\<close>

text \<open>
  \<open>strings.ToLower\<close> of the Go library, on ASCII text: the bytes \<open>A\<close> to \<open>Z\<close> are
  lowered and every other byte is kept. (Go also lowers letters outside ASCII; no
  statement below is about such text.)
\<close>

definition lower_byte :: "char \<Rightarrow> char" where
  "lower_byte c =
     (let n = (of_char c :: nat) in if 65 \<le> n \<and> n \<le> 90 then char_of (n + 32) else c)"

definition ToLower :: "string \<Rightarrow> string" where
  "ToLower s = map lower_byte s"

text \<open>ASCII text: every byte is below \<open>0x80\<close>.\<close>

definition ascii_text :: "string \<Rightarrow> bool" where
  "ascii_text s = list_all (\<lambda>c. (of_char c :: nat) < 128) s"

text \<open>
  Modelled from the spec: the escape helper \<open>LiteralQuoteEscape\<close> of package \<open>expr\<close> is
  not part of the sources at hand. Force-quoting wraps the text in the quote and doubles
  every embedded occurrence of the quote.
\<close>

definition LiteralQuoteEscape :: "char \<Rightarrow> string \<Rightarrow> string" where
  "LiteralQuoteEscape quote s =
     quote # concat (map (\<lambda>c. if c = quote then [quote, quote] else [c]) s) @ [quote]"

text \<open>
  Modelled from the spec: \<open>LiteralQuoteEscapeBuf\<close> (not part of the sources at hand)
  writes the force-quoted text to the buffer.
\<close>

definition LiteralQuoteEscapeBuf :: "string \<Rightarrow> char \<Rightarrow> string \<Rightarrow> string" where
  "LiteralQuoteEscapeBuf buf quote s = buf @ LiteralQuoteEscape quote s"

text \<open>
  Modelled from the spec: an identity is quoted only when necessary, which is when it is
  empty, begins with a digit, or holds a byte that is not a letter, a digit or an
  underscore (white space, dots, punctuation). \<open>is_digit_byte\<close>, \<open>is_ident_byte\<close> and
  \<open>needs_quote\<close> say so.
\<close>

definition is_digit_byte :: "char \<Rightarrow> bool" where
  "is_digit_byte c = (let n = (of_char c :: nat) in 48 \<le> n \<and> n \<le> 57)"

definition is_ident_byte :: "char \<Rightarrow> bool" where
  "is_ident_byte c =
     (let n = (of_char c :: nat)
      in (48 \<le> n \<and> n \<le> 57) \<or> (65 \<le> n \<and> n \<le> 90) \<or> (97 \<le> n \<and> n \<le> 122) \<or> n = 95)"

definition needs_quote :: "string \<Rightarrow> bool" where
  "needs_quote s =
     (case s of [] \<Rightarrow> True | c # cs \<Rightarrow> is_digit_byte c \<or> \<not> list_all is_ident_byte s)"

text \<open>
  Modelled from the spec: \<open>IdentityMaybeEscapeBuf\<close> (not part of the sources at hand)
  writes the identity to the buffer, force-quoted when necessary and raw otherwise.
\<close>

definition IdentityMaybeEscapeBuf :: "string \<Rightarrow> char \<Rightarrow> string \<Rightarrow> string" where
  "IdentityMaybeEscapeBuf buf quote ident =
     (if needs_quote ident then buf @ LiteralQuoteEscape quote ident else buf @ ident)"

text \<open>
  \<open>strconv.Quote\<close> of the Go library, on ASCII text: a double-quoted text in which the
  double quote and the backslash are escaped by a backslash, the control bytes that have
  a letter escape (\<open>\a \b \f \n \r \t \v\<close>) are written with it, and every other control
  byte (below \<open>0x20\<close>, and \<open>0x7F\<close>) is written as \<open>\x\<close> and two lower-case hexadecimal
  digits. A byte above \<open>0x7F\<close> is kept as it is, which is what Go does with the bytes of
  a printable rune; Go escapes the other runes and the bytes that are not UTF-8, and no
  statement below is about such text.
\<close>

definition hex_digit :: "nat \<Rightarrow> char" where
  "hex_digit n = ''0123456789abcdef'' ! (n mod 16)"

definition quote_byte :: "char \<Rightarrow> string" where
  "quote_byte c =
     (let n = (of_char c :: nat) in
      if c = CHR 0x22 then [CHR 0x5C, CHR 0x22]
      else if c = CHR 0x5C then [CHR 0x5C, CHR 0x5C]
      else if n = 7 then [CHR 0x5C, CHR ''a'']
      else if n = 8 then [CHR 0x5C, CHR ''b'']
      else if n = 12 then [CHR 0x5C, CHR ''f'']
      else if n = 10 then [CHR 0x5C, CHR ''n'']
      else if n = 13 then [CHR 0x5C, CHR ''r'']
      else if n = 9 then [CHR 0x5C, CHR ''t'']
      else if n = 11 then [CHR 0x5C, CHR ''v'']
      else if n < 32 \<or> n = 127 then
        [CHR 0x5C, CHR ''x'', hex_digit (n div 16), hex_digit (n mod 16)]
      else [c])"

definition strconv_Quote :: "string \<Rightarrow> string" where
  "strconv_Quote s = CHR 0x22 # concat (map quote_byte s) @ [CHR 0x22]"

text \<open>
  \<open>defaultDialect\<close>: the embedded \<open>bytes.Buffer\<close> is the text written so far.
\<close>

record defaultDialect =
  Buffer :: string
  Null :: string
  LiteralQuote :: char
  IdentityQuote :: char
  stripNamespace :: bool

text \<open>The writes of \<open>bytes.Buffer\<close> (\<open>Write\<close>, \<open>WriteString\<close>, \<open>WriteByte\<close>) append.\<close>

definition Buffer_Write :: "defaultDialect \<Rightarrow> string \<Rightarrow> defaultDialect" where
  "Buffer_Write w bs = w\<lparr>Buffer := Buffer w @ bs\<rparr>"

definition defaultDialect_WriteLiteral :: "defaultDialect \<Rightarrow> string \<Rightarrow> defaultDialect" where
  "defaultDialect_WriteLiteral w l =
     (if length l = 1 \<and> l = ''*'' then Buffer_Write w ''*''
      else w\<lparr>Buffer := LiteralQuoteEscapeBuf (Buffer w) (LiteralQuote w) l\<rparr>)"

definition defaultDialect_WriteIdentity :: "defaultDialect \<Rightarrow> string \<Rightarrow> defaultDialect" where
  "defaultDialect_WriteIdentity w i =
     (if length i = 1 \<and> i = ''*'' then Buffer_Write w ''*''
      else w\<lparr>Buffer := IdentityMaybeEscapeBuf (Buffer w) (IdentityQuote w) i\<rparr>)"

definition defaultDialect_WriteLeftRightIdentity ::
  "defaultDialect \<Rightarrow> string \<Rightarrow> string \<Rightarrow> defaultDialect" where
  "defaultDialect_WriteLeftRightIdentity w l r =
     (if l = [] then defaultDialect_WriteIdentity w r
      else if stripNamespace w then defaultDialect_WriteIdentity w r
      else defaultDialect_WriteIdentity
             (Buffer_Write (defaultDialect_WriteIdentity w l) ''.'') r)"

text \<open>The parameter \<open>quote\<close> is not used by the body of the source either.\<close>

definition defaultDialect_WriteIdentityQuote ::
  "defaultDialect \<Rightarrow> string \<Rightarrow> char \<Rightarrow> defaultDialect" where
  "defaultDialect_WriteIdentityQuote w i quote =
     (if length i = 1 \<and> i = ''*'' then Buffer_Write w ''*''
      else w\<lparr>Buffer := LiteralQuoteEscapeBuf (Buffer w) (IdentityQuote w) i\<rparr>)"

definition defaultDialect_WriteNumber :: "defaultDialect \<Rightarrow> string \<Rightarrow> defaultDialect" where
  "defaultDialect_WriteNumber w n = Buffer_Write w n"

definition defaultDialect_WriteNull :: "defaultDialect \<Rightarrow> defaultDialect" where
  "defaultDialect_WriteNull w = Buffer_Write w (Null w)"

definition jsonDialect_WriteLiteral :: "defaultDialect \<Rightarrow> string \<Rightarrow> defaultDialect" where
  "jsonDialect_WriteLiteral w l =
     (if length l = 1 \<and> l = ''*'' then Buffer_Write w ''*''
      else Buffer_Write w (strconv_Quote l))"

definition keywordDialect_WriteIdentity ::
  "defaultDialect \<Rightarrow> (string \<rightharpoonup> unit) \<Rightarrow> string \<Rightarrow> defaultDialect" where
  "keywordDialect_WriteIdentity w kw ident =
     (let isKeyword = (kw (ToLower ident) \<noteq> None)
      in if isKeyword then Buffer_Write w (LiteralQuoteEscape (IdentityQuote w) ident)
         else defaultDialect_WriteIdentity w ident)"

text \<open>
  The implementations of the interface \<open>DialectWriter\<close>. \<open>jsonDialect\<close> and
  \<open>keywordDialect\<close> embed a \<open>defaultDialect\<close>; \<open>fingerprintDialect\<close> embeds any
  \<open>DialectWriter\<close> and holds the replacement text.
\<close>

datatype DialectWriter =
    DefaultDialect defaultDialect
  | JsonDialect defaultDialect
  | KeywordDialect defaultDialect "string \<rightharpoonup> unit"
  | FingerprintDialect DialectWriter string

text \<open>
  The methods of the interface, dispatched on the implementation. A method that an
  implementation does not declare is the promoted method of what it embeds: for
  \<open>jsonDialect\<close> and \<open>keywordDialect\<close> that of \<open>defaultDialect\<close>, which calls the other
  methods of \<open>defaultDialect\<close>; for \<open>fingerprintDialect\<close> that of the wrapped writer.
\<close>

fun Write :: "DialectWriter \<Rightarrow> string \<Rightarrow> DialectWriter" where
  "Write (DefaultDialect d) bs = DefaultDialect (Buffer_Write d bs)"
| "Write (JsonDialect d) bs = JsonDialect (Buffer_Write d bs)"
| "Write (KeywordDialect d kw) bs = KeywordDialect (Buffer_Write d bs) kw"
| "Write (FingerprintDialect w replace) bs = FingerprintDialect (Write w bs) replace"

fun WriteLiteral :: "DialectWriter \<Rightarrow> string \<Rightarrow> DialectWriter" where
  "WriteLiteral (DefaultDialect d) l = DefaultDialect (defaultDialect_WriteLiteral d l)"
| "WriteLiteral (JsonDialect d) l = JsonDialect (jsonDialect_WriteLiteral d l)"
| "WriteLiteral (KeywordDialect d kw) l = KeywordDialect (defaultDialect_WriteLiteral d l) kw"
| "WriteLiteral (FingerprintDialect w replace) l = FingerprintDialect (Write w replace) replace"

fun WriteNumber :: "DialectWriter \<Rightarrow> string \<Rightarrow> DialectWriter" where
  "WriteNumber (DefaultDialect d) n = DefaultDialect (defaultDialect_WriteNumber d n)"
| "WriteNumber (JsonDialect d) n = JsonDialect (defaultDialect_WriteNumber d n)"
| "WriteNumber (KeywordDialect d kw) n = KeywordDialect (defaultDialect_WriteNumber d n) kw"
| "WriteNumber (FingerprintDialect w replace) n = FingerprintDialect (Write w replace) replace"

fun WriteIdentity :: "DialectWriter \<Rightarrow> string \<Rightarrow> DialectWriter" where
  "WriteIdentity (DefaultDialect d) i = DefaultDialect (defaultDialect_WriteIdentity d i)"
| "WriteIdentity (JsonDialect d) i = JsonDialect (defaultDialect_WriteIdentity d i)"
| "WriteIdentity (KeywordDialect d kw) i = KeywordDialect (keywordDialect_WriteIdentity d kw i) kw"
| "WriteIdentity (FingerprintDialect w replace) i =
     FingerprintDialect (WriteIdentity w (ToLower i)) replace"

fun WriteLeftRightIdentity :: "DialectWriter \<Rightarrow> string \<Rightarrow> string \<Rightarrow> DialectWriter" where
  "WriteLeftRightIdentity (DefaultDialect d) l r =
     DefaultDialect (defaultDialect_WriteLeftRightIdentity d l r)"
| "WriteLeftRightIdentity (JsonDialect d) l r =
     JsonDialect (defaultDialect_WriteLeftRightIdentity d l r)"
| "WriteLeftRightIdentity (KeywordDialect d kw) l r =
     KeywordDialect (defaultDialect_WriteLeftRightIdentity d l r) kw"
| "WriteLeftRightIdentity (FingerprintDialect w replace) l r =
     FingerprintDialect (WriteLeftRightIdentity w l r) replace"

fun WriteIdentityQuote :: "DialectWriter \<Rightarrow> string \<Rightarrow> char \<Rightarrow> DialectWriter" where
  "WriteIdentityQuote (DefaultDialect d) i q =
     DefaultDialect (defaultDialect_WriteIdentityQuote d i q)"
| "WriteIdentityQuote (JsonDialect d) i q =
     JsonDialect (defaultDialect_WriteIdentityQuote d i q)"
| "WriteIdentityQuote (KeywordDialect d kw) i q =
     KeywordDialect (defaultDialect_WriteIdentityQuote d i q) kw"
| "WriteIdentityQuote (FingerprintDialect w replace) i q =
     FingerprintDialect (WriteIdentityQuote w i q) replace"

fun WriteNull :: "DialectWriter \<Rightarrow> DialectWriter" where
  "WriteNull (DefaultDialect d) = DefaultDialect (defaultDialect_WriteNull d)"
| "WriteNull (JsonDialect d) = JsonDialect (defaultDialect_WriteNull d)"
| "WriteNull (KeywordDialect d kw) = KeywordDialect (defaultDialect_WriteNull d) kw"
| "WriteNull (FingerprintDialect w replace) = FingerprintDialect (WriteNull w) replace"

text \<open>\<open>String()\<close>: the text written so far.\<close>

fun String :: "DialectWriter \<Rightarrow> string" where
  "String (DefaultDialect d) = Buffer d"
| "String (JsonDialect d) = Buffer d"
| "String (KeywordDialect d kw) = Buffer d"
| "String (FingerprintDialect w replace) = String w"

text \<open>The constructors. A \<open>defaultDialect\<close> literal leaves the fields it does not name zero.\<close>

definition NewDialectWriter :: "char \<Rightarrow> char \<Rightarrow> DialectWriter" where
  "NewDialectWriter l i =
     DefaultDialect \<lparr>Buffer = [], Null = [], LiteralQuote = l, IdentityQuote = i,
       stripNamespace = False\<rparr>"

definition NewJSONDialectWriter :: DialectWriter where
  "NewJSONDialectWriter =
     JsonDialect \<lparr>Buffer = [], Null = ''NULL'', LiteralQuote = CHR 0x22, IdentityQuote = CHR 0x60,
       stripNamespace = False\<rparr>"

definition NewDefaultWriter :: DialectWriter where
  "NewDefaultWriter =
     DefaultDialect \<lparr>Buffer = [], Null = ''NULL'', LiteralQuote = CHR 0x22,
       IdentityQuote = CHR 0x60, stripNamespace = False\<rparr>"

definition NewDefaultNoNamspaceWriter :: DialectWriter where
  "NewDefaultNoNamspaceWriter =
     DefaultDialect \<lparr>Buffer = [], Null = ''NULL'', LiteralQuote = CHR 0x22,
       IdentityQuote = CHR 0x60, stripNamespace = True\<rparr>"

definition NewKeywordDialect :: "string list \<Rightarrow> DialectWriter" where
  "NewKeywordDialect kw =
     KeywordDialect
       \<lparr>Buffer = [], Null = ''NULL'', LiteralQuote = CHR 0x22, IdentityQuote = CHR 0x60,
         stripNamespace = False\<rparr>
       (fold (\<lambda>w m. m(w \<mapsto> ())) kw Map.empty)"

definition NewFingerPrinter :: DialectWriter where
  "NewFingerPrinter = FingerprintDialect NewDefaultWriter ''?''"

definition NewFingerPrintWriter :: "string \<Rightarrow> DialectWriter \<Rightarrow> DialectWriter" where
  "NewFingerPrintWriter replace w = FingerprintDialect w replace"

section \<open>Expression nodes\<close>

text \<open>
  Modelled from the spec: the function descriptor \<open>Func\<close> and the registry \<open>funcs\<close> are
  declared outside the sources at hand. A descriptor carries its name; \<open>Impl\<close> stands
  for its remaining fields, which are zero (\<open>None\<close>) in a descriptor that carries just
  the name.
\<close>

record Func =
  Name :: string
  Impl :: "nat option"

text \<open>
  Modelled from the spec: the node variants are not part of the sources at hand. A
  \<open>Node\<close> of Go is an interface value and may be nil: a child is a \<open>node option\<close>, with
  \<open>None\<close> for nil. A number, a string and an identity keep their position and text; a
  unary, binary, ternary and multi-argument node keeps its operator token; a binary node
  has the parenthesised flag; a function node keeps its position, name, descriptor and
  arguments.
\<close>

datatype node =
    NumberNode int string
  | StringNode int string
  | IdentityNode int string
  | NullNode int
  | UnaryNode Token "node option"
  | BinaryNode Token "node option" "node option" bool
  | TriNode Token "node option" "node option" "node option"
  | MultiArgNode Token "node option list"
  | FuncNode int string Func "node option list"

text \<open>
  Modelled from the spec: the constructors of the nodes (not part of the sources at hand)
  store their arguments; a new binary node is not parenthesised, and a new multi-argument
  node and a new function node have no arguments yet.
\<close>

definition NewStringNode :: "int \<Rightarrow> string \<Rightarrow> node" where
  "NewStringNode pos text = StringNode pos text"

definition NewIdentityNode :: "int \<Rightarrow> string \<Rightarrow> node" where
  "NewIdentityNode pos text = IdentityNode pos text"

definition NewUnary :: "Token \<Rightarrow> node option \<Rightarrow> node" where
  "NewUnary operator arg = UnaryNode operator arg"

definition NewBinaryNode :: "Token \<Rightarrow> node option \<Rightarrow> node option \<Rightarrow> node" where
  "NewBinaryNode operator lhArg rhArg = BinaryNode operator lhArg rhArg False"

definition NewTriNode :: "Token \<Rightarrow> node option \<Rightarrow> node option \<Rightarrow> node option \<Rightarrow> node" where
  "NewTriNode operator arg1 arg2 arg3 = TriNode operator arg1 arg2 arg3"

definition NewMultiArgNode :: "Token \<Rightarrow> node" where
  "NewMultiArgNode operator = MultiArgNode operator []"

definition NewFuncNode :: "int \<Rightarrow> string \<Rightarrow> Func \<Rightarrow> node" where
  "NewFuncNode pos name f = FuncNode pos name f []"

text \<open>
  Modelled from the spec: \<open>Append\<close> of a multi-argument node and \<open>append\<close> of a function
  node (not part of the sources at hand) add one argument at the end of the ordered
  argument list.
\<close>

fun Append :: "node \<Rightarrow> node option \<Rightarrow> node" where
  "Append (MultiArgNode operator args) arg = MultiArgNode operator (args @ [arg])"
| "Append n arg = n"

fun FuncNode_append :: "node \<Rightarrow> node option \<Rightarrow> node" where
  "FuncNode_append (FuncNode pos name f args) arg = FuncNode pos name f (args @ [arg])"
| "FuncNode_append n arg = n"

text \<open>
  \<open>if bn, ok := n.(*BinaryNode); ok { bn.Paren = true }\<close>: the flag of a binary node is
  raised, any other node (and nil) is left as it is.
\<close>

fun set_Paren :: "node option \<Rightarrow> node option" where
  "set_Paren (Some (BinaryNode operator l r p)) = Some (BinaryNode operator l r True)"
| "set_Paren n = n"

section \<open>The parser\<close>

text \<open>
  What the parser takes from outside the sources at hand, as parameters: the function
  registry \<open>funcs\<close>; \<open>to_lower\<close>, which is \<open>strings.ToLower\<close> of the Go library
  (it lowers every letter of Unicode; as a parameter, a statement about every environment
  holds for whatever it does to a name); whether a number text parses (\<open>number_error\<close>
  gives the error text when it does not); the check of a node, \<open>Check\<close>, which gives
  the error text when it fails; and \<open>token_text\<close>, the text of a token in a message.
\<close>

record env =
  funcs :: "string \<rightharpoonup> Func"
  to_lower :: "string \<Rightarrow> string"
  number_error :: "string \<Rightarrow> string option"
  Check :: "node \<Rightarrow> string option"
  token_text :: "Token \<Rightarrow> string"

text \<open>
  Modelled from the spec: \<open>NewNumber\<close> (not part of the sources at hand) gives a number
  node that keeps the text, or the error when the text does not parse as a number.
\<close>

definition NewNumber :: "env \<Rightarrow> int \<Rightarrow> string \<Rightarrow> string + node" where
  "NewNumber e pos text =
     (case number_error e text of None \<Rightarrow> Inr (NumberNode pos text) | Some err \<Rightarrow> Inl err)"

text \<open>\<open>Tree\<close>: the embedded \<open>TokenPager\<close> is the field \<open>pager\<close>.\<close>

record Tree =
  runCheck :: bool
  Root :: "node option"
  pager :: LexTokenPager

definition NewTree :: "LexTokenPager \<Rightarrow> Tree" where
  "NewTree p = \<lparr>runCheck = False, Root = None, pager = p\<rparr>"

text \<open>
  A value given to \<open>panic\<close>: an \<open>error\<close> with its message, a plain string, or a run-time
  error of Go (an index out of range, a nil dereference).
\<close>

datatype panic_value = ErrorValue string | StringValue string | RuntimeError

text \<open>
  The outcome of a call on a tree: it returns a value and the tree as the call left it,
  or it panics with a value, or the fuel of the model ran out before the call ended.
\<close>

datatype 'a result = Return 'a Tree | Panic panic_value Tree | OutOfFuel

fun and_then :: "'a result \<Rightarrow> ('a \<Rightarrow> Tree \<Rightarrow> 'b result) \<Rightarrow> 'b result" where
  "and_then (Return x t) k = k x t"
| "and_then (Panic p t) k = Panic p t"
| "and_then OutOfFuel k = OutOfFuel"

text \<open>The pager calls of a tree; an index out of range is a run-time panic.\<close>

definition Tree_Next :: "Tree \<Rightarrow> Token result" where
  "Tree_Next t =
     (case Next (pager t) of
        None \<Rightarrow> Panic RuntimeError t
      | Some (tok, m) \<Rightarrow> Return tok (t\<lparr>pager := m\<rparr>))"

definition Tree_Cur :: "Tree \<Rightarrow> Token result" where
  "Tree_Cur t =
     (case Cur (pager t) of
        None \<Rightarrow> Panic RuntimeError t
      | Some (tok, m) \<Rightarrow> Return tok (t\<lparr>pager := m\<rparr>))"

definition Tree_Peek :: "Tree \<Rightarrow> Token result" where
  "Tree_Peek t =
     (case Peek (pager t) of
        None \<Rightarrow> Panic RuntimeError t
      | Some (tok, m) \<Rightarrow> Return tok (t\<lparr>pager := m\<rparr>))"

text \<open>
  \<open>errorf\<close> clears the root and panics with an error whose message starts with
  \<open>expr: \<close>; its argument here is the formatted message.
\<close>

definition Tree_errorf :: "string \<Rightarrow> Tree \<Rightarrow> 'a result" where
  "Tree_errorf msg t = Panic (ErrorValue (''expr: '' @ msg)) (t\<lparr>Root := None\<rparr>)"

definition Tree_error :: "string \<Rightarrow> Tree \<Rightarrow> 'a result" where
  "Tree_error err t = Tree_errorf err t"

definition Tree_unexpected :: "env \<Rightarrow> Token \<Rightarrow> string \<Rightarrow> Tree \<Rightarrow> 'a result" where
  "Tree_unexpected e token context t =
     Tree_errorf (''unexpected '' @ token_text e token @ '' in '' @ context) t"

definition Tree_expect :: "env \<Rightarrow> TokenType \<Rightarrow> string \<Rightarrow> Tree \<Rightarrow> Token result" where
  "Tree_expect e expected context t =
     and_then (Tree_Cur t) (\<lambda>token t.
       if T token \<noteq> expected then Tree_unexpected e token context t else Return token t)"

definition getFunction :: "env \<Rightarrow> string \<Rightarrow> Func option" where
  "getFunction e name = funcs e (to_lower e name)"

text \<open>
  The grammar functions \<open>O\<close>, \<open>A\<close>, \<open>C\<close>, \<open>P\<close>, \<open>M\<close>, \<open>F\<close>, \<open>v\<close>, \<open>MultiArg\<close> and
  \<open>Func\<close> of \<open>Tree\<close> call one another. A call is a value: the function called and its
  arguments. Each \<open>for\<close> loop is a function of its own (\<open>_loop\<close>), whose arguments are
  the variables the loop reads.
\<close>

datatype grammar_call =
    O_call int
  | O_loop_call int "node option"
  | A_call int
  | A_loop_call int "node option"
  | C_call int
  | C_loop_call int "node option"
  | P_call int
  | P_loop_call int "node option"
  | M_call int
  | M_loop_call int "node option"
  | MultiArg_call "node option" Token int
  | MultiArg_loop_call int node
  | F_call int
  | v_call int
  | Func_call int Token
  | Func_loop_call int node

text \<open>
  The bodies of the grammar functions, one equation for each function. The argument
  \<open>run\<close> performs the calls that the body makes.
\<close>

fun grammar ::
  "env \<Rightarrow> (grammar_call \<Rightarrow> Tree \<Rightarrow> node option result) \<Rightarrow> grammar_call \<Rightarrow> Tree \<Rightarrow>
     node option result"
where
  "grammar e run (O_call depth) t =
     and_then (run (A_call depth) t) (\<lambda>n t. run (O_loop_call depth n) t)"
| "grammar e run (O_loop_call depth n) t =
     and_then (Tree_Cur t) (\<lambda>tok t.
       if T tok = TokenLogicOr \<or> T tok = TokenOr then
         and_then (Tree_Next t) (\<lambda>_ t.
         and_then (run (A_call (depth + 1)) t) (\<lambda>rhs t.
           run (O_loop_call depth (Some (NewBinaryNode tok n rhs))) t))
       else if T tok = TokenCommentSingleLine then
         and_then (Tree_Next t) (\<lambda>_ t.
         and_then (Tree_Next t) (\<lambda>_ t.
           run (O_loop_call depth n) t))
       else if T tok \<in> {TokenEOF, TokenEOS, TokenFrom, TokenComma, TokenIf, TokenAs,
                         TokenSelect, TokenLimit} then
         Return n t
       else Return n t)"
| "grammar e run (A_call depth) t =
     and_then (run (C_call depth) t) (\<lambda>n t. run (A_loop_call depth n) t)"
| "grammar e run (A_loop_call depth n) t =
     and_then (Tree_Cur t) (\<lambda>tok t.
       if T tok = TokenLogicAnd \<or> T tok = TokenAnd then
         and_then (Tree_Next t) (\<lambda>_ t.
         and_then (run (C_call (depth + 1)) t) (\<lambda>rhs t.
           run (A_loop_call depth (Some (NewBinaryNode tok n rhs))) t))
       else Return n t)"
| "grammar e run (C_call depth) t =
     and_then (run (P_call depth) t) (\<lambda>n t. run (C_loop_call depth n) t)"
| "grammar e run (C_loop_call depth n) t =
     and_then (Tree_Cur t) (\<lambda>cur t.
       if T cur \<in> {TokenEqual, TokenEqualEqual, TokenNE, TokenGT, TokenGE, TokenLE, TokenLT,
                    TokenLike} then
         and_then (Tree_Next t) (\<lambda>_ t.
         and_then (run (P_call (depth + 1)) t) (\<lambda>rhs t.
           run (C_loop_call depth (Some (NewBinaryNode cur n rhs))) t))
       else if T cur = TokenBetween then
         and_then (Tree_Next t) (\<lambda>_ t.
         and_then (run (P_call depth) t) (\<lambda>n2 t.
         and_then (Tree_expect e TokenLogicAnd ''input'' t) (\<lambda>_ t.
         and_then (Tree_Next t) (\<lambda>_ t.
         and_then (Tree_Cur t) (\<lambda>_ t.
         and_then (Tree_Peek t) (\<lambda>_ t.
         and_then (run (P_call (depth + 1)) t) (\<lambda>n3 t.
           run (C_loop_call depth (Some (NewTriNode cur n n2 n3))) t)))))))
       else if T cur = TokenIN then
         and_then (Tree_Next t) (\<lambda>_ t. run (MultiArg_call n cur depth) t)
       else Return n t)"
| "grammar e run (P_call depth) t =
     and_then (run (M_call depth) t) (\<lambda>n t. run (P_loop_call depth n) t)"
| "grammar e run (P_loop_call depth n) t =
     and_then (Tree_Cur t) (\<lambda>cur t.
       if T cur = TokenPlus \<or> T cur = TokenMinus then
         and_then (Tree_Next t) (\<lambda>_ t.
         and_then (run (M_call (depth + 1)) t) (\<lambda>rhs t.
           run (P_loop_call depth (Some (NewBinaryNode cur n rhs))) t))
       else Return n t)"
| "grammar e run (M_call depth) t =
     and_then (run (F_call depth) t) (\<lambda>n t. run (M_loop_call depth n) t)"
| "grammar e run (M_loop_call depth n) t =
     and_then (Tree_Cur t) (\<lambda>cur t.
       if T cur \<in> {TokenStar, TokenMultiply, TokenDivide, TokenModulus} then
         and_then (Tree_Next t) (\<lambda>_ t.
         and_then (run (F_call (depth + 1)) t) (\<lambda>rhs t.
           run (M_loop_call depth (Some (NewBinaryNode cur n rhs))) t))
       else Return n t)"
| "grammar e run (MultiArg_call first operator depth) t =
     and_then (Tree_expect e TokenLeftParenthesis ''input'' t) (\<lambda>_ t.
     and_then (Tree_Next t) (\<lambda>_ t.
       run (MultiArg_loop_call depth (Append (NewMultiArgNode operator) first)) t))"
| "grammar e run (MultiArg_loop_call depth multiNode) t =
     and_then (Tree_Cur t) (\<lambda>cur t.
       if T cur = TokenRightParenthesis then
         and_then (Tree_Next t) (\<lambda>_ t. Return (Some multiNode) t)
       else if T cur = TokenComma then
         and_then (Tree_Next t) (\<lambda>_ t. run (MultiArg_loop_call depth multiNode) t)
       else
         and_then (run (O_call depth) t) (\<lambda>n t.
           if n \<noteq> None then run (MultiArg_loop_call depth (Append multiNode n)) t
           else and_then (Tree_Cur t) (\<lambda>_ t. Return (Some multiNode) t)))"
| "grammar e run (F_call depth) t =
     and_then (Tree_Cur t) (\<lambda>cur t.
       if T cur = TokenUdfExpr then run (v_call depth) t
       else if T cur = TokenInteger \<or> T cur = TokenFloat then run (v_call depth) t
       else if T cur = TokenIdentity then run (v_call depth) t
       else if T cur = TokenValue then run (v_call depth) t
       else if T cur = TokenStar then run (v_call depth) t
       else if T cur = TokenNegate \<or> T cur = TokenMinus then
         and_then (Tree_Next t) (\<lambda>_ t.
         and_then (run (F_call (depth + 1)) t) (\<lambda>arg t.
           Return (Some (NewUnary cur arg)) t))
       else if T cur = TokenLeftParenthesis then
         and_then (Tree_Next t) (\<lambda>_ t.
         and_then (run (O_call (depth + 1)) t) (\<lambda>n t.
         and_then (Tree_expect e TokenRightParenthesis ''input'' t) (\<lambda>_ t.
         and_then (Tree_Next t) (\<lambda>_ t.
           Return (set_Paren n) t))))
       else Panic (StringValue (''unexpected token '' @ token_text e cur @ '' '')) t)"
| "grammar e run (v_call depth) t =
     and_then (Tree_Cur t) (\<lambda>cur t.
       if T cur = TokenInteger \<or> T cur = TokenFloat then
         (case NewNumber e (Pos cur) (V cur) of
            Inl err \<Rightarrow> Tree_error err t
          | Inr n \<Rightarrow> and_then (Tree_Next t) (\<lambda>_ t. Return (Some n) t))
       else if T cur = TokenValue then
         and_then (Tree_Next t) (\<lambda>_ t. Return (Some (NewStringNode (Pos cur) (V cur))) t)
       else if T cur = TokenIdentity then
         and_then (Tree_Next t) (\<lambda>_ t. Return (Some (NewIdentityNode (Pos cur) (V cur))) t)
       else if T cur = TokenStar then
         and_then (Tree_Next t) (\<lambda>_ t. Return (Some (NewStringNode (Pos cur) (V cur))) t)
       else if T cur = TokenUdfExpr then run (Func_call depth cur) t
       else if T cur = TokenLeftParenthesis then
         and_then (Tree_Next t) (\<lambda>_ t.
         and_then (run (O_call (depth + 1)) t) (\<lambda>n t.
         and_then (Tree_Next t) (\<lambda>_ t.
         and_then (Tree_expect e TokenRightParenthesis ''input'' t) (\<lambda>_ t.
           Return (set_Paren n) t))))
       else if IsEnd (pager t) then Return None t
       else Tree_unexpected e cur ''input'' t)"
| "grammar e run (Func_call depth tok) t =
     and_then (Tree_Peek t) (\<lambda>pk t.
       if T pk \<noteq> TokenLeftParenthesis then
         Panic (StringValue ''must have left paren on function'') t
       else
         (case getFunction e (V tok) of
            None \<Rightarrow>
              if runCheck t then Tree_errorf (''non existent function '' @ V tok) t
              else
                and_then (Tree_Next t) (\<lambda>_ t.
                and_then (Tree_expect e TokenLeftParenthesis ''func'' t) (\<lambda>_ t.
                  run (Func_loop_call depth (NewFuncNode (Pos tok) (V tok) \<lparr>Name = V tok, Impl = None\<rparr>)) t))
          | Some funcImpl \<Rightarrow>
              and_then (Tree_Next t) (\<lambda>_ t.
              and_then (Tree_expect e TokenLeftParenthesis ''func'' t) (\<lambda>_ t.
                run (Func_loop_call depth (NewFuncNode (Pos tok) (V tok) funcImpl)) t))))"
| "grammar e run (Func_loop_call depth fn) t =
     and_then (Tree_Next t) (\<lambda>_ t.
     and_then (Tree_Cur t) (\<lambda>firstToken t.
       if T firstToken = TokenRightParenthesis then
         and_then (Tree_Next t) (\<lambda>_ t. Return (Some fn) t)
       else if T firstToken \<in> {TokenEOF, TokenEOS, TokenFrom} then Return (Some fn) t
       else
         and_then (run (O_call (depth + 1)) t) (\<lambda>node t.
         and_then (Tree_Cur t) (\<lambda>token t.
           let fn' = (if node \<noteq> None then FuncNode_append fn node else fn) in
           if T token = TokenComma then run (Func_loop_call depth fn') t
           else if T token = TokenRightParenthesis then
             and_then (Tree_Next t) (\<lambda>_ t. Return (Some fn') t)
           else if T token \<in> {TokenEOF, TokenEOS, TokenFrom} then
             and_then (Tree_Next t) (\<lambda>_ t. Return (Some fn') t)
           else if T token \<in> {TokenEqual, TokenEqualEqual, TokenNE, TokenGT, TokenGE, TokenLE,
                               TokenLT, TokenStar, TokenMultiply, TokenDivide} then
             and_then (run (O_call (depth + 1)) t) (\<lambda>node2 t.
               run (Func_loop_call depth (if node2 \<noteq> None then FuncNode_append fn node2 else fn)) t)
           else Tree_unexpected e token ''func'' t))))"

text \<open>
  Running a call with fuel: every call takes one unit of fuel, and a call without fuel is
  \<open>OutOfFuel\<close>.
\<close>

primrec run_call_fuel ::
  "env \<Rightarrow> nat \<Rightarrow> grammar_call \<Rightarrow> Tree \<Rightarrow> node option result"
where
  "run_call_fuel e 0 = (\<lambda>c t. OutOfFuel)"
| "run_call_fuel e (Suc k) = grammar e (run_call_fuel e k)"

definition Tree_O :: "env \<Rightarrow> nat \<Rightarrow> int \<Rightarrow> Tree \<Rightarrow> node option result" where
  "Tree_O e k depth t = run_call_fuel e k (O_call depth) t"

definition O_loop :: "env \<Rightarrow> nat \<Rightarrow> int \<Rightarrow> node option \<Rightarrow> Tree \<Rightarrow> node option result" where
  "O_loop e k depth n t = run_call_fuel e k (O_loop_call depth n) t"

definition Tree_A :: "env \<Rightarrow> nat \<Rightarrow> int \<Rightarrow> Tree \<Rightarrow> node option result" where
  "Tree_A e k depth t = run_call_fuel e k (A_call depth) t"

definition A_loop :: "env \<Rightarrow> nat \<Rightarrow> int \<Rightarrow> node option \<Rightarrow> Tree \<Rightarrow> node option result" where
  "A_loop e k depth n t = run_call_fuel e k (A_loop_call depth n) t"

definition Tree_C :: "env \<Rightarrow> nat \<Rightarrow> int \<Rightarrow> Tree \<Rightarrow> node option result" where
  "Tree_C e k depth t = run_call_fuel e k (C_call depth) t"

definition C_loop :: "env \<Rightarrow> nat \<Rightarrow> int \<Rightarrow> node option \<Rightarrow> Tree \<Rightarrow> node option result" where
  "C_loop e k depth n t = run_call_fuel e k (C_loop_call depth n) t"

definition Tree_P :: "env \<Rightarrow> nat \<Rightarrow> int \<Rightarrow> Tree \<Rightarrow> node option result" where
  "Tree_P e k depth t = run_call_fuel e k (P_call depth) t"

definition P_loop :: "env \<Rightarrow> nat \<Rightarrow> int \<Rightarrow> node option \<Rightarrow> Tree \<Rightarrow> node option result" where
  "P_loop e k depth n t = run_call_fuel e k (P_loop_call depth n) t"

definition Tree_M :: "env \<Rightarrow> nat \<Rightarrow> int \<Rightarrow> Tree \<Rightarrow> node option result" where
  "Tree_M e k depth t = run_call_fuel e k (M_call depth) t"

definition M_loop :: "env \<Rightarrow> nat \<Rightarrow> int \<Rightarrow> node option \<Rightarrow> Tree \<Rightarrow> node option result" where
  "M_loop e k depth n t = run_call_fuel e k (M_loop_call depth n) t"

definition Tree_MultiArg ::
  "env \<Rightarrow> nat \<Rightarrow> node option \<Rightarrow> Token \<Rightarrow> int \<Rightarrow> Tree \<Rightarrow> node option result" where
  "Tree_MultiArg e k first operator depth t =
     run_call_fuel e k (MultiArg_call first operator depth) t"

definition MultiArg_loop :: "env \<Rightarrow> nat \<Rightarrow> int \<Rightarrow> node \<Rightarrow> Tree \<Rightarrow> node option result" where
  "MultiArg_loop e k depth multiNode t = run_call_fuel e k (MultiArg_loop_call depth multiNode) t"

definition Tree_F :: "env \<Rightarrow> nat \<Rightarrow> int \<Rightarrow> Tree \<Rightarrow> node option result" where
  "Tree_F e k depth t = run_call_fuel e k (F_call depth) t"

definition Tree_v :: "env \<Rightarrow> nat \<Rightarrow> int \<Rightarrow> Tree \<Rightarrow> node option result" where
  "Tree_v e k depth t = run_call_fuel e k (v_call depth) t"

definition Tree_Func :: "env \<Rightarrow> nat \<Rightarrow> int \<Rightarrow> Token \<Rightarrow> Tree \<Rightarrow> node option result" where
  "Tree_Func e k depth tok t = run_call_fuel e k (Func_call depth tok) t"

definition Func_loop :: "env \<Rightarrow> nat \<Rightarrow> int \<Rightarrow> node \<Rightarrow> Tree \<Rightarrow> node option result" where
  "Func_loop e k depth fn t = run_call_fuel e k (Func_loop_call depth fn) t"

text \<open>
  \<open>BuildTree\<close>. No \<open>recover\<close> is deferred in its body, so a panic of the grammar
  functions, of the check of a nil root or of \<open>t.error\<close> leaves it as a panic. The value
  it returns is its \<open>error\<close>: \<open>None\<close> for nil.
\<close>

definition BuildTree :: "env \<Rightarrow> nat \<Rightarrow> bool \<Rightarrow> Tree \<Rightarrow> string option result" where
  "BuildTree e k rc t0 =
     (let t = t0\<lparr>runCheck := rc\<rparr> in
      and_then (Tree_O e k 0 t) (\<lambda>n t.
        let t = t\<lparr>Root := n\<rparr> in
        if rc then
          (case Root t of
             None \<Rightarrow> Panic RuntimeError t
           | Some r \<Rightarrow>
               (case Check e r of
                  Some err \<Rightarrow> Tree_error err t
                | None \<Rightarrow> Return None t))
        else Return None t))"

text \<open>
  \<open>ParseExpression\<close>, from the lexer that \<open>lex.NewLexer\<close> makes of the text: a fresh
  pager with end token \<open>TokenEOF\<close>, a fresh tree and \<open>BuildTree(true)\<close>.
\<close>

definition ParseExpression :: "env \<Rightarrow> nat \<Rightarrow> Lexer \<Rightarrow> string option result" where
  "ParseExpression e k l =
     BuildTree e k True (NewTree ((NewLexTokenPager l)\<lparr>pend := TokenEOF\<rparr>))"

section \<open>Notions for the statements about the parser\<close>

text \<open>
  What a call returned, the value it panicked with, and the tree it left.
\<close>

definition returned :: "'a result \<Rightarrow> 'a option" where
  "returned r = (case r of Return x t \<Rightarrow> Some x | _ \<Rightarrow> None)"

definition panicked :: "'a result \<Rightarrow> panic_value option" where
  "panicked r = (case r of Panic p t \<Rightarrow> Some p | _ \<Rightarrow> None)"

definition tree_of :: "'a result \<Rightarrow> Tree option" where
  "tree_of r = (case r of Return x t \<Rightarrow> Some t | Panic p t \<Rightarrow> Some t | OutOfFuel \<Rightarrow> None)"

text \<open>
  More fuel never changes an outcome: \<open>le_res r r'\<close> says that \<open>r\<close> ran out of fuel or
  is \<open>r'\<close>.
\<close>

definition le_res :: "'a result \<Rightarrow> 'a result \<Rightarrow> bool" where
  "le_res r r' \<longleftrightarrow> r = OutOfFuel \<or> r = r'"

text \<open>
  The structure of a tree: the tree with every function descriptor replaced by the
  descriptor that carries just the name of its node.
\<close>

fun shape :: "node \<Rightarrow> node" where
  "shape (NumberNode pos text) = NumberNode pos text"
| "shape (StringNode pos text) = StringNode pos text"
| "shape (IdentityNode pos text) = IdentityNode pos text"
| "shape (NullNode pos) = NullNode pos"
| "shape (UnaryNode operator arg) = UnaryNode operator (map_option shape arg)"
| "shape (BinaryNode operator l r p) = BinaryNode operator (map_option shape l) (map_option shape r) p"
| "shape (TriNode operator a b c) =
     TriNode operator (map_option shape a) (map_option shape b) (map_option shape c)"
| "shape (MultiArgNode operator args) = MultiArgNode operator (map (map_option shape) args)"
| "shape (FuncNode pos name f args) =
     FuncNode pos name \<lparr>Name = name, Impl = None\<rparr> (map (map_option shape) args)"

fun call_shape :: "grammar_call \<Rightarrow> grammar_call" where
  "call_shape (O_call d) = O_call d"
| "call_shape (O_loop_call d n) = O_loop_call d (map_option shape n)"
| "call_shape (A_call d) = A_call d"
| "call_shape (A_loop_call d n) = A_loop_call d (map_option shape n)"
| "call_shape (C_call d) = C_call d"
| "call_shape (C_loop_call d n) = C_loop_call d (map_option shape n)"
| "call_shape (P_call d) = P_call d"
| "call_shape (P_loop_call d n) = P_loop_call d (map_option shape n)"
| "call_shape (M_call d) = M_call d"
| "call_shape (M_loop_call d n) = M_loop_call d (map_option shape n)"
| "call_shape (MultiArg_call n operator d) = MultiArg_call (map_option shape n) operator d"
| "call_shape (MultiArg_loop_call d n) = MultiArg_loop_call d (shape n)"
| "call_shape (F_call d) = F_call d"
| "call_shape (v_call d) = v_call d"
| "call_shape (Func_call d tok) = Func_call d tok"
| "call_shape (Func_loop_call d n) = Func_loop_call d (shape n)"

definition same_shape :: "node option result \<Rightarrow> node option result \<Rightarrow> bool" where
  "same_shape r r' =
     (case r of
        Return x t \<Rightarrow>
          (case r' of Return y t' \<Rightarrow> map_option shape x = map_option shape y \<and> t = t'
           | _ \<Rightarrow> False)
      | Panic p t \<Rightarrow> r' = Panic p t
      | OutOfFuel \<Rightarrow> r' = OutOfFuel)"

definition lax :: "'a result \<Rightarrow> bool" where
  "lax r = (case r of Return x t \<Rightarrow> \<not> runCheck t | _ \<Rightarrow> True)"

definition lax_same :: "node option result \<Rightarrow> node option result \<Rightarrow> bool" where
  "lax_same r r' \<longleftrightarrow> same_shape r r' \<and> lax r"

text \<open>The result of \<open>Func\<close>'s loop, when it returns, is the function node it was given,
  with arguments appended.\<close>

definition head_is :: "int \<Rightarrow> string \<Rightarrow> Func \<Rightarrow> node option result \<Rightarrow> bool" where
  "head_is p nm fd r =
     (case r of Return x t \<Rightarrow> (\<exists>as. x = Some (FuncNode p nm fd as)) | _ \<Rightarrow> True)"






text \<open>
  A call ends without a run-time fault: when it returns, the pager satisfies its invariant
  and the node is not nil; when it panics, the value is a string or an error.
  \<open>token_ok\<close> says the same of a pager call of the tree, and \<open>call_ok\<close> of a call that
  the node accumulated by a loop is not nil.
\<close>

definition no_fault :: "node option result \<Rightarrow> bool" where
  "no_fault r =
     (case r of
        Return x t \<Rightarrow> pager_inv (pager t) \<and> x \<noteq> None
      | Panic p t \<Rightarrow> p \<noteq> RuntimeError
      | OutOfFuel \<Rightarrow> True)"

definition token_ok :: "Token result \<Rightarrow> bool" where
  "token_ok r = (case r of Return x t \<Rightarrow> pager_inv (pager t) | Panic p t \<Rightarrow> p \<noteq> RuntimeError
      | OutOfFuel \<Rightarrow> True)"

fun call_ok :: "grammar_call \<Rightarrow> bool" where
  "call_ok (O_loop_call d n) = (n \<noteq> None)"
| "call_ok (A_loop_call d n) = (n \<noteq> None)"
| "call_ok (C_loop_call d n) = (n \<noteq> None)"
| "call_ok (P_loop_call d n) = (n \<noteq> None)"
| "call_ok (M_loop_call d n) = (n \<noteq> None)"
| "call_ok c = True"

text \<open>
  Concrete inputs: an environment with an empty registry, in which names are lowered as
  ASCII text, every number text parses and every check passes, and in which a token is
  shown as its text; a fresh tree
  over a token list, and the same tree once \<open>Cur\<close> has fetched the first token.
\<close>

definition env0 :: env where
  "env0 = \<lparr>funcs = Map.empty, to_lower = ToLower, number_error = (\<lambda>s. None),
            Check = (\<lambda>n. None), token_text = (\<lambda>tok. V tok)\<rparr>"

definition fresh_tree :: "bool \<Rightarrow> Token list \<Rightarrow> Tree" where
  "fresh_tree rc ts = (NewTree (NewLexTokenPager (lexer_of ts)))\<lparr>runCheck := rc\<rparr>"

definition at_first_token :: "bool \<Rightarrow> Token list \<Rightarrow> Tree" where
  "at_first_token rc ts =
     (case Tree_Cur (fresh_tree rc ts) of Return tok t \<Rightarrow> t | _ \<Rightarrow> fresh_tree rc ts)"

section \<open>Emission of a tree\<close>

text \<open>
  Modelled from the spec: an identity has an optional left qualifier and a right
  identifier, the parts of its text before and after the first dot. Without a dot the
  qualifier is empty.
\<close>

definition identity_left :: "string \<Rightarrow> string" where
  "identity_left text =
     (if CHR ''.'' \<in> set text then takeWhile (\<lambda>c. c \<noteq> CHR ''.'') text else [])"

definition identity_right :: "string \<Rightarrow> string" where
  "identity_right text =
     (if CHR ''.'' \<in> set text then tl (dropWhile (\<lambda>c. c \<noteq> CHR ''.'') text) else text)"

text \<open>
  Modelled from the spec: \<open>WriteDialect\<close> of the nodes is not part of the sources at hand.
  A number is written by \<open>WriteNumber\<close>, a string by \<open>WriteLiteral\<close>, an identity by
  \<open>WriteLeftRightIdentity\<close>, null by \<open>WriteNull\<close>. A binary node writes its operands with
  the operator text between them, and surrounding parentheses when, and only when, its
  parenthesised flag is set. A ternary node writes \<open>a BETWEEN b AND c\<close>; a
  multi-argument node writes its first operand, the operator and the other arguments in
  parentheses, separated by commas; a function node writes its name and its arguments in
  parentheses, separated by commas. For a unary node the spec shows no text: the operator
  text is written before the operand. A nil child writes nothing.
\<close>

fun WriteDialect :: "node \<Rightarrow> DialectWriter \<Rightarrow> DialectWriter"
  and WriteDialect_child :: "node option \<Rightarrow> DialectWriter \<Rightarrow> DialectWriter"
  and WriteDialect_args :: "node option list \<Rightarrow> DialectWriter \<Rightarrow> DialectWriter"
where
  "WriteDialect (NumberNode pos text) w = WriteNumber w text"
| "WriteDialect (StringNode pos text) w = WriteLiteral w text"
| "WriteDialect (IdentityNode pos text) w =
     WriteLeftRightIdentity w (identity_left text) (identity_right text)"
| "WriteDialect (NullNode pos) w = WriteNull w"
| "WriteDialect (UnaryNode operator arg) w = WriteDialect_child arg (Write w (V operator))"
| "WriteDialect (BinaryNode operator l r paren) w =
     (let w1 = (if paren then Write w ''('' else w);
          w2 = WriteDialect_child l w1;
          w3 = Write w2 ('' '' @ V operator @ '' '');
          w4 = WriteDialect_child r w3
      in if paren then Write w4 '')'' else w4)"
| "WriteDialect (TriNode operator a b c) w =
     WriteDialect_child c (Write (WriteDialect_child b (Write (WriteDialect_child a w)
       '' BETWEEN '')) '' AND '')"
| "WriteDialect (MultiArgNode operator args) w =
     (case args of
        [] \<Rightarrow> w
      | first # rest \<Rightarrow>
          Write (WriteDialect_args rest
            (Write (WriteDialect_child first w) ('' '' @ V operator @ '' (''))) '')'')"
| "WriteDialect (FuncNode pos name f args) w =
     Write (WriteDialect_args args (Write w (name @ ''(''))) '')''"
| "WriteDialect_child None w = w"
| "WriteDialect_child (Some n) w = WriteDialect n w"
| "WriteDialect_args [] w = w"
| "WriteDialect_args [a] w = WriteDialect_child a w"
| "WriteDialect_args (a # b # rest) w =
     WriteDialect_args (b # rest) (Write (WriteDialect_child a w) '', '')"

text \<open>
  Modelled from the spec: \<open>String()\<close> of a node is its canonical text through a default
  dialect writer.
\<close>

definition node_String :: "node \<Rightarrow> string" where
  "node_String n = String (WriteDialect n NewDefaultWriter)"

text \<open>
  \<open>Tree.String\<close> is \<open>t.Root.String()\<close>; on a nil root the call panics, which is \<open>None\<close>
  here.
\<close>

definition Tree_String :: "Tree \<Rightarrow> string option" where
  "Tree_String t = map_option node_String (Root t)"

text \<open>
  The root and the text of the tree that \<open>ParseExpression\<close> leaves for a token list, in
  the environment \<open>env0\<close>.
\<close>

definition parse_root :: "Token list \<Rightarrow> node option" where
  "parse_root ts =
     (case tree_of (ParseExpression env0 40 (lexer_of ts)) of None \<Rightarrow> None | Some t \<Rightarrow> Root t)"

definition parse_String :: "Token list \<Rightarrow> string option" where
  "parse_String ts =
     (case tree_of (ParseExpression env0 40 (lexer_of ts)) of
        None \<Rightarrow> None
      | Some t \<Rightarrow> Tree_String t)"

section \<open>The pager stays inside its buffer\<close>

lemma pager_inv_New: "pager_inv (NewLexTokenPager l)"
  by (simp add: pager_inv_def NewLexTokenPager_def)

lemma pull_props:
  assumes "pager_inv m"
  shows "pager_inv (pull m)" and "tokens (pull m) \<noteq> [] \<or> \<not> pdone m"
    and "\<not> pdone m \<Longrightarrow> cursor (pull m) + 1 < int (length (tokens (pull m)))"
    and "cursor (pull m) = cursor m"
    and "pdone m \<Longrightarrow> pull m = m"
  using assms
  by (auto simp: pager_inv_def pull_def NextToken_def Let_def split: if_splits)

lemma Next_ok:
  assumes "pager_inv m"
  shows "\<exists>tok. Next m = Some (tok, advance (pull m)) \<and> pager_inv (advance (pull m)) \<and>
           0 \<le> cursor (advance (pull m)) \<and> tok \<in> set (tokens (advance (pull m)))"
proof -
  let ?p = "pull m"
  let ?a = "advance ?p"
  have ip: "pager_inv ?p" using assms by (rule pull_props)
  have ne: "tokens ?p \<noteq> []"
    using assms by (auto simp: pager_inv_def pull_def NextToken_def Let_def split: if_splits)
  have ia: "pager_inv ?a" using ip by (auto simp: pager_inv_def advance_def)
  have c0: "0 \<le> cursor ?a"
  proof (cases "cursor ?p + 1 < int (length (tokens ?p))")
    case True
    then have "cursor ?a = cursor ?p + 1" by (simp add: advance_def)
    with ip show ?thesis by (simp add: pager_inv_def)
  next
    case False
    then have "cursor ?a = cursor ?p" by (simp add: advance_def)
    moreover have "1 \<le> int (length (tokens ?p))" using ne by (cases "tokens ?p") simp_all
    ultimately show ?thesis using False by linarith
  qed
  have lt: "cursor ?a < int (length (tokens ?a))" using ia by (simp add: pager_inv_def)
  from c0 lt have "slice_index (tokens ?a) (cursor ?a) = Some (tokens ?a ! nat (cursor ?a))"
    by (simp add: slice_index_def)
  moreover from c0 lt have "tokens ?a ! nat (cursor ?a) \<in> set (tokens ?a)"
    by (intro nth_mem) linarith
  ultimately show ?thesis using ia c0 by (simp add: Next_def Let_def)
qed

lemma Cur_ok:
  assumes "pager_inv m"
  shows "\<exists>tok m'. Cur m = Some (tok, m') \<and> pager_inv m' \<and> 0 \<le> cursor m' \<and> tok \<in> set (tokens m')"
proof (cases "cursor m = - 1")
  case True
  then show ?thesis using Next_ok [OF assms] by (auto simp: Cur_def)
next
  case False
  with assms have c0: "0 \<le> cursor m" and lt: "cursor m < int (length (tokens m))"
    by (auto simp: pager_inv_def)
  then have "tokens m ! nat (cursor m) \<in> set (tokens m)" by (intro nth_mem) linarith
  with False c0 lt assms show ?thesis by (simp add: Cur_def slice_index_def)
qed

lemma Backup_ok: "pager_inv m \<Longrightarrow> pager_inv (Backup m)"
  by (auto simp: pager_inv_def Backup_def)

lemma Peek_ok:
  assumes "pager_inv m"
  shows "\<exists>tok m'. Peek m = Some (tok, m') \<and> pager_inv m' \<and> tok \<in> set (tokens m')"
proof (cases "int (length (tokens m)) \<le> cursor m + 1")
  case False
  with assms have "0 \<le> cursor m + 1" "cursor m + 1 < int (length (tokens m))"
    by (auto simp: pager_inv_def)
  moreover from this have "tokens m ! nat (cursor m + 1) \<in> set (tokens m)"
    by (intro nth_mem) linarith
  ultimately show ?thesis using False assms by (simp add: Peek_def slice_index_def)
next
  case True
  let ?a = "advance (pull m)"
  let ?b = "?a\<lparr>cursor := cursor ?a - 1\<rparr>"
  from Next_ok [OF assms] obtain tok0 where
    n: "Next m = Some (tok0, ?a)" and ia: "pager_inv ?a" and c0: "0 \<le> cursor ?a" by blast
  have ib: "pager_inv ?b" using ia c0 by (auto simp: pager_inv_def)
  have lt: "cursor ?a < int (length (tokens ?a))" using ia by (simp add: pager_inv_def)
  from c0 lt have "tokens ?a ! nat (cursor ?a) \<in> set (tokens ?a)" by (intro nth_mem) linarith
  with True n ib c0 lt show ?thesis by (simp add: Peek_def Let_def slice_index_def)
qed

lemma run_call_ok: "pager_inv m \<Longrightarrow> \<exists>m'. run_call c m = Some m' \<and> pager_inv m'"
  using Next_ok [of m] Cur_ok [of m] Peek_ok [of m] Backup_ok [of m]
  by (cases c) auto

lemma run_calls_ok: "pager_inv m \<Longrightarrow> \<exists>m'. run_calls cs m = Some m' \<and> pager_inv m'"
proof (induction cs arbitrary: m)
  case Nil
  then show ?case by simp
next
  case (Cons c cs)
  from run_call_ok [OF Cons.prems, of c] obtain m1 where
    "run_call c m = Some m1" "pager_inv m1" by blast
  with Cons.IH [of m1] show ?case by simp
qed

lemma Next_after_eof:
  assumes "pager_inv m" and "TokenEOF \<in> T ` set (tokens m)"
  shows "\<exists>tok m'. Next m = Some (tok, m') \<and> lexer m' = lexer m \<and> tokens m' = tokens m \<and>
           tok \<in> set (tokens m)"
proof -
  from assms have d: "pdone m" by (auto simp: pager_inv_def split: if_splits)
  then have p: "pull m = m" by (simp add: pull_def)
  from Next_ok [OF assms(1)] p obtain tok where
    "Next m = Some (tok, advance m)" "tok \<in> set (tokens (advance m))" by auto
  then show ?thesis by (auto simp: advance_def split: if_splits)
qed

lemmas pager_eval = Next_def pull_def advance_def NextToken_def lexer_of_def
  NewLexTokenPager_def slice_index_def Let_def Cur_def Peek_def Backup_def eof_token_def mk_token_def

text \<open>
  Claim C10. Whatever sequence of \<open>Next\<close>, \<open>Cur\<close>, \<open>Peek\<close> and \<open>Backup\<close> calls is made
  on a fresh pager, over any lexer, no call indexes the buffer out of range (every call
  returns), the cursor ends between \<open>-1\<close> and the last index, and once the buffer
  holds an end-of-file token \<open>Next\<close> leaves lexer and buffer alone and returns a
  buffered token.
\<close>

theorem pager_calls_in_bounds:
  "\<exists>m. run_calls cs (NewLexTokenPager l) = Some m \<and>
       - 1 \<le> cursor m \<and> cursor m < int (length (tokens m)) \<and>
       (TokenEOF \<in> T ` set (tokens m) \<longrightarrow>
          (\<exists>tok m'. Next m = Some (tok, m') \<and> lexer m' = lexer m \<and> tokens m' = tokens m \<and>
             tok \<in> set (tokens m)))"
proof -
  from run_calls_ok [OF pager_inv_New] obtain m where
    r: "run_calls cs (NewLexTokenPager l) = Some m" and i: "pager_inv m" by blast
  from i have "- 1 \<le> cursor m \<and> cursor m < int (length (tokens m))"
    by (simp add: pager_inv_def)
  with r Next_after_eof [OF i] show ?thesis by blast
qed

text \<open>An instance: six calls on the stream \<open>a, EOF\<close>, which buffer the end of file.\<close>

theorem pager_calls_in_bounds_witness:
  "\<exists>m. run_calls [CallPeek, CallNext, CallBackup, CallNext, CallPeek, CallCur]
          (NewLexTokenPager (lexer_of [mk_token TokenIdentity 0 ''a''])) = Some m \<and>
       - 1 \<le> cursor m \<and> cursor m < int (length (tokens m)) \<and>
       TokenEOF \<in> T ` set (tokens m) \<and>
       (\<exists>tok m'. Next m = Some (tok, m') \<and> lexer m' = lexer m \<and> tokens m' = tokens m \<and>
          tok \<in> set (tokens m))"
proof -
  let ?cs = "[CallPeek, CallNext, CallBackup, CallNext, CallPeek, CallCur]"
  let ?l = "lexer_of [mk_token TokenIdentity 0 ''a'']"
  from pager_calls_in_bounds [of ?cs ?l] obtain m where
    r: "run_calls ?cs (NewLexTokenPager ?l) = Some m" and
    b: "- 1 \<le> cursor m" "cursor m < int (length (tokens m))" and
    n: "TokenEOF \<in> T ` set (tokens m) \<longrightarrow>
          (\<exists>tok m'. Next m = Some (tok, m') \<and> lexer m' = lexer m \<and> tokens m' = tokens m \<and>
             tok \<in> set (tokens m))"
    by blast
  have "tokens m = [mk_token TokenIdentity 0 ''a'', eof_token]"
    using r by (auto simp: pager_eval)
  then have e: "TokenEOF \<in> T ` set (tokens m)" by (simp add: eof_token_def)
  with r b n show ?thesis by blast
qed

section \<open>Peek at the end of the stream\<close>

text \<open>
  Claim C3. On the stream \<open>a, EOF\<close>, after two \<open>Next\<close> calls the current token is
  the end-of-file token. \<open>Peek\<close> then returns the end-of-file token as well, and moves
  the cursor back: afterwards \<open>Cur\<close> is \<open>a\<close>. So \<open>Peek\<close> does not leave
  \<open>Cur\<close> unchanged at the end of the stream.
\<close>

theorem Peek_at_end_moves_cursor:
  "Cur_after [CallNext, CallNext] (lexer_of [mk_token TokenIdentity 0 ''a'']) = Some eof_token \<and>
   Peek_after [CallNext, CallNext] (lexer_of [mk_token TokenIdentity 0 ''a'']) = Some eof_token \<and>
   Cur_after [CallNext, CallNext, CallPeek] (lexer_of [mk_token TokenIdentity 0 ''a'']) =
     Some (mk_token TokenIdentity 0 ''a'')"
  by (simp add: Cur_after_def Peek_after_def pager_eval)

lemma run_calls_append:
  "run_calls (cs @ ds) m = (case run_calls cs m of None \<Rightarrow> None | Some m' \<Rightarrow> run_calls ds m')"
  by (induction cs arbitrary: m) (auto split: option.splits)

lemma Peek_again:
  assumes "Peek m = Some (tok, m')"
  shows "Peek m' = Some (tok, m')"
proof -
  from assms have "slice_index (tokens m') (cursor m' + 1) = Some tok"
    by (auto simp: Peek_def Let_def split: if_splits option.splits)
  moreover from this have "\<not> int (length (tokens m')) \<le> cursor m' + 1"
    by (auto simp: slice_index_def split: if_splits)
  ultimately show ?thesis by (simp add: Peek_def)
qed

text \<open>
  Two consecutive \<open>Peek\<close> calls return the same token, in every state that a sequence
  of calls on a fresh pager reaches: a further \<open>Peek\<close> before a \<open>Peek\<close> does not change
  what it returns.
\<close>

theorem Peek_twice_same_token:
  "Peek_after (cs @ [CallPeek]) l = Peek_after cs l"
proof -
  from run_calls_ok [OF pager_inv_New, of cs l] obtain m where
    m: "run_calls cs (NewLexTokenPager l) = Some m" and i: "pager_inv m" by blast
  from Peek_ok [OF i] obtain tok m' where p: "Peek m = Some (tok, m')" by blast
  from Peek_again [OF p] m p show ?thesis
    by (simp add: Peek_after_def run_calls_append)
qed

text \<open>
  Unless the pager is done with its cursor on the last buffered token, \<open>Peek\<close> leaves the
  cursor where it was and only appends to the buffer.
\<close>

theorem Peek_keeps_cursor_before_end:
  assumes "pager_inv m" and "\<not> (pdone m \<and> cursor m + 1 = int (length (tokens m)))"
    and "Peek m = Some (tok, m')"
  shows "cursor m' = cursor m \<and> take (length (tokens m)) (tokens m') = tokens m"
  using assms
  by (auto simp: Peek_def Next_def pull_def advance_def NextToken_def Let_def pager_inv_def
      split: if_splits option.splits)

text \<open>An instance: after one \<open>Next\<close> on the stream \<open>a, EOF\<close>.\<close>

theorem Peek_keeps_cursor_before_end_witness:
  "\<exists>m tok m'. run_calls [CallNext] (NewLexTokenPager (lexer_of [mk_token TokenIdentity 0 ''a''])) = Some m \<and>
     \<not> pdone m \<and> Peek m = Some (tok, m') \<and> cursor m' = cursor m \<and> cursor m = 0 \<and>
     take (length (tokens m)) (tokens m') = tokens m \<and> tok = eof_token"
proof -
  let ?l = "lexer_of [mk_token TokenIdentity 0 ''a'']"
  from run_calls_ok [OF pager_inv_New, of "[CallNext]" ?l] obtain m where
    m: "run_calls [CallNext] (NewLexTokenPager ?l) = Some m" and i: "pager_inv m" by blast
  from m have d: "\<not> pdone m" and c: "cursor m = 0" by (auto simp: pager_eval)
  from Peek_ok [OF i] obtain tok m' where p: "Peek m = Some (tok, m')" by blast
  from d have "\<not> (pdone m \<and> cursor m + 1 = int (length (tokens m)))" by simp
  from Peek_keeps_cursor_before_end [OF i this p]
  have k: "cursor m' = cursor m" "take (length (tokens m)) (tokens m') = tokens m" by simp_all
  from m p have "tok = eof_token" by (auto simp: pager_eval)
  with m d p k c show ?thesis by blast
qed

section \<open>The dialect writers on concrete identifiers\<close>

lemmas writer_eval = NewKeywordDialect_def NewDefaultWriter_def NewFingerPrinter_def
  keywordDialect_WriteIdentity_def defaultDialect_WriteIdentity_def
  defaultDialect_WriteLeftRightIdentity_def defaultDialect_WriteIdentityQuote_def
  defaultDialect_WriteLiteral_def defaultDialect_WriteNumber_def
  Buffer_Write_def LiteralQuoteEscape_def LiteralQuoteEscapeBuf_def IdentityMaybeEscapeBuf_def
  needs_quote_def is_digit_byte_def is_ident_byte_def ToLower_def lower_byte_def Let_def
  char_of_def bit_Suc_0_iff

text \<open>
  Claim C6. The keyword writer looks the lower-cased identifier up among the words as
  they were given. With the word list \<open>SELECT\<close>, neither the identifier \<open>select\<close> nor
  the identifier \<open>SELECT\<close> is quoted, although both match the word when case is
  ignored; with the word list \<open>select\<close> the identifier \<open>SELECT\<close> is quoted.
\<close>

theorem keyword_upper_case_word_never_matches:
  "String (WriteIdentity (NewKeywordDialect [''SELECT'']) ''select'') = ''select'' \<and>
   String (WriteIdentity (NewKeywordDialect [''SELECT'']) ''SELECT'') = ''SELECT'' \<and>
   String (WriteIdentity (NewKeywordDialect [''select'']) ''SELECT'') =
     [CHR 0x60] @ ''SELECT'' @ [CHR 0x60]"
  by (simp add: writer_eval)

text \<open>
  Claim C7. \<open>WriteIdentityQuote\<close> of the default writer, asked to quote \<open>a\<close> with the
  double quote, writes it between back quotes, the identity quote of the writer: the
  quote of the caller is not used.
\<close>

theorem WriteIdentityQuote_ignores_quote:
  "String (WriteIdentityQuote NewDefaultWriter ''a'' (CHR 0x22)) =
     [CHR 0x60, CHR ''a'', CHR 0x60]"
  by (simp add: writer_eval)

text \<open>
  Claim C8. Through the fingerprint writer, the qualified identity \<open>Users.Email\<close> is
  written as it is, with its capitals, while the plain identity \<open>Users\<close> is lowered:
  \<open>WriteLeftRightIdentity\<close> is the method of the wrapped writer, which calls its own
  \<open>WriteIdentity\<close>.
\<close>

theorem fingerprint_keeps_case_of_qualified_identity:
  "String (WriteLeftRightIdentity NewFingerPrinter ''Users'' ''Email'') = ''Users.Email'' \<and>
   String (WriteIdentity NewFingerPrinter ''Users'') = ''users''"
  by (simp add: writer_eval)

text \<open>
  For every writer and every identity, what \<open>WriteIdentityQuote\<close> writes does not depend
  on the quote it is given.
\<close>

theorem WriteIdentityQuote_never_reads_quote:
  "WriteIdentityQuote w i q = WriteIdentityQuote w i q'"
  by (induction w) (simp_all add: defaultDialect_WriteIdentityQuote_def)

lemma String_Write: "String (Write w bs) = String w @ bs"
  by (induction w) (simp_all add: Buffer_Write_def)

text \<open>
  The fingerprint writer over any writer writes its replacement, and nothing else, for
  every literal and every number.
\<close>

theorem fingerprint_writes_placeholder:
  "String (WriteLiteral (NewFingerPrintWriter r w) l) = String w @ r \<and>
   String (WriteNumber (NewFingerPrintWriter r w) n) = String w @ r"
  by (simp add: NewFingerPrintWriter_def String_Write)

lemma fold_keyword_map:
  "fold (\<lambda>w m. m(w \<mapsto> ())) kw m0 x \<noteq> None \<longleftrightarrow> x \<in> set kw \<or> m0 x \<noteq> None"
  by (induction kw arbitrary: m0) auto

text \<open>
  The keyword writer force-quotes an identifier of ASCII text with the back quote exactly
  when its lower-cased text is one of the words as they were given; otherwise it writes
  what the default writer writes.
\<close>

theorem keyword_quotes_lowered_identifier_in_words:
  assumes "ascii_text i"
  shows "String (WriteIdentity (NewKeywordDialect kw) i) =
     (if ToLower i \<in> set kw then LiteralQuoteEscape (CHR 0x60) i
      else String (WriteIdentity NewDefaultWriter i))"
proof -
  let ?m = "fold (\<lambda>w m. m(w \<mapsto> ())) kw Map.empty"
  have k: "(?m (ToLower i) \<noteq> None) = (ToLower i \<in> set kw)"
    by (simp only: fold_keyword_map) simp
  show ?thesis
  proof (cases "ToLower i \<in> set kw")
    case True
    with k have "?m (ToLower i) \<noteq> None" by blast
    with True show ?thesis
      by (simp add: NewKeywordDialect_def keywordDialect_WriteIdentity_def Buffer_Write_def)
  next
    case False
    with k have "?m (ToLower i) = None" by blast
    with False show ?thesis
      by (simp add: NewKeywordDialect_def NewDefaultWriter_def keywordDialect_WriteIdentity_def)
  qed
qed

text \<open>An instance: the identifier \<open>Select\<close> with the word \<open>select\<close>.\<close>

theorem keyword_quotes_lowered_identifier_in_words_witness:
  "ascii_text ''Select'' \<and>
   String (WriteIdentity (NewKeywordDialect [''select'']) ''Select'') =
     [CHR 0x60] @ ''Select'' @ [CHR 0x60]"
proof -
  have a: "ascii_text ''Select''" by (simp add: ascii_text_def)
  from keyword_quotes_lowered_identifier_in_words [OF a, of "[''select'']"]
  have "String (WriteIdentity (NewKeywordDialect [''select'']) ''Select'') =
     [CHR 0x60] @ ''Select'' @ [CHR 0x60]"
    by (simp add: ToLower_def lower_byte_def LiteralQuoteEscape_def char_of_def bit_Suc_0_iff)
  with a show ?thesis by simp
qed

section \<open>Running the parser on concrete token lists\<close>

text \<open>
  The continuation of \<open>and_then\<close> is only looked at once the first call has ended.
\<close>

lemma and_then_weak_cong: "m = m' \<Longrightarrow> and_then m k = and_then m' k"
  by simp

lemma run_call_fuel_numeral:
  "run_call_fuel e (numeral n) = grammar e (run_call_fuel e (pred_numeral n))"
  by (simp add: numeral_eq_Suc)

lemmas Tree_defs = Tree_O_def O_loop_def Tree_A_def A_loop_def Tree_C_def C_loop_def
  Tree_P_def P_loop_def Tree_M_def M_loop_def Tree_MultiArg_def MultiArg_loop_def
  Tree_F_def Tree_v_def Tree_Func_def Func_loop_def

lemmas tree_eval = Tree_Next_def Tree_Cur_def Tree_Peek_def Tree_expect_def Tree_unexpected_def
  Tree_errorf_def Tree_error_def NewTree_def BuildTree_def ParseExpression_def
  NewNumber_def NewStringNode_def NewIdentityNode_def NewUnary_def NewBinaryNode_def
  NewTriNode_def NewMultiArgNode_def NewFuncNode_def getFunction_def IsEnd_def
  run_call_fuel_numeral

lemmas parser_eval = Tree_defs tree_eval pager_eval env0_def fresh_tree_def at_first_token_def
  tree_of_def returned_def panicked_def

lemma is_Return: "returned r = Some v \<Longrightarrow> r = Return v (the (tree_of r))"
  by (cases r) (simp_all add: returned_def tree_of_def)

lemma and_then_Return_iff:
  "(and_then m f = Return x t') = (\<exists>y s. m = Return y s \<and> f y s = Return x t')"
  by (cases m) auto

section \<open>More fuel never changes an outcome\<close>

lemma le_res_refl: "le_res r r"
  by (simp add: le_res_def)

lemma and_then_mono:
  assumes "le_res m m'" and "\<And>x s. le_res (f x s) (f' x s)"
  shows "le_res (and_then m f) (and_then m' f')"
proof (cases m)
  case (Return x s)
  with assms(1) have "m' = Return x s" by (simp add: le_res_def)
  with Return assms(2) show ?thesis by simp
next
  case (Panic p s)
  with assms(1) have "m' = Panic p s" by (simp add: le_res_def)
  with Panic show ?thesis by (simp add: le_res_def)
next
  case OutOfFuel
  then show ?thesis by (simp add: le_res_def)
qed

lemma grammar_mono:
  assumes "\<And>c t. le_res (run c t) (run' c t)"
  shows "le_res (grammar e run c t) (grammar e run' c t)"
  by (cases c)
     (auto simp del: insert_iff simp add: Let_def intro!: and_then_mono le_res_refl assms split: sum.splits option.splits)

lemma run_call_fuel_Suc_mono: "le_res (run_call_fuel e k c t) (run_call_fuel e (Suc k) c t)"
proof (induction k arbitrary: c t)
  case 0
  show ?case by (simp add: le_res_def)
next
  case (Suc k)
  have "le_res (grammar e (run_call_fuel e k) c t) (grammar e (run_call_fuel e (Suc k)) c t)"
    by (rule grammar_mono) (rule Suc.IH)
  then show ?case by simp
qed

lemma run_call_fuel_mono:
  assumes "k \<le> k'" and "run_call_fuel e k c t \<noteq> OutOfFuel"
  shows "run_call_fuel e k' c t = run_call_fuel e k c t"
  using assms
proof (induction k')
  case 0
  then show ?case by simp
next
  case (Suc k')
  show ?case
  proof (cases "k = Suc k'")
    case True
    then show ?thesis by simp
  next
    case False
    with Suc.prems have "k \<le> k'" by simp
    with Suc have eq: "run_call_fuel e k' c t = run_call_fuel e k c t" by simp
    from run_call_fuel_Suc_mono [of e k' c t] eq Suc.prems(2)
    show ?thesis by (simp add: le_res_def)
  qed
qed

text \<open>
  A call of \<open>O\<close> that ends with some fuel, by a return or by a panic, ends in the same
  way with more fuel.
\<close>

theorem more_fuel_same_outcome:
  assumes "k \<le> k'" and "Tree_O e k depth t \<noteq> OutOfFuel"
  shows "Tree_O e k' depth t = Tree_O e k depth t"
  using run_call_fuel_mono [of k k' e "O_call depth" t] assms by (simp add: Tree_O_def)

text \<open>An instance: the single identity \<open>x\<close> with fuel 10 and fuel 50.\<close>

theorem more_fuel_same_outcome_witness:
  "Tree_O env0 10 0 (fresh_tree False [mk_token TokenIdentity 0 ''x'']) \<noteq> OutOfFuel \<and>
   Tree_O env0 50 0 (fresh_tree False [mk_token TokenIdentity 0 ''x'']) =
   Tree_O env0 10 0 (fresh_tree False [mk_token TokenIdentity 0 ''x''])"
proof -
  let ?t = "fresh_tree False [mk_token TokenIdentity 0 ''x'']"
  have "returned (Tree_O env0 10 0 ?t) = Some (Some (IdentityNode 0 ''x''))"
    by (simp add: parser_eval cong: and_then_weak_cong)
  then have n: "Tree_O env0 10 0 ?t \<noteq> OutOfFuel" by (auto simp: returned_def)
  from more_fuel_same_outcome [OF _ n, of 50] n show ?thesis by simp
qed

section \<open>The loop of \<open>O\<close> at a clause terminator\<close>

lemma Tree_O_Suc:
  "Tree_O e (Suc k) depth t = and_then (Tree_A e k depth t) (\<lambda>n t. O_loop e k depth n t)"
  by (simp add: Tree_defs)

lemma Tree_A_Suc:
  "Tree_A e (Suc k) depth t = and_then (Tree_C e k depth t) (\<lambda>n t. A_loop e k depth n t)"
  by (simp add: Tree_defs)

lemma Tree_C_Suc:
  "Tree_C e (Suc k) depth t = and_then (Tree_P e k depth t) (\<lambda>n t. C_loop e k depth n t)"
  by (simp add: Tree_defs)

lemma Cur_again:
  assumes "Cur m = Some (tok, m')"
  shows "Cur m' = Some (tok, m')"
proof (cases "cursor m = - 1")
  case True
  with assms have n: "Next m = Some (tok, m')" by (simp add: Cur_def)
  then have "slice_index (tokens m') (cursor m') = Some tok"
    by (auto simp: Next_def Let_def split: option.splits)
  moreover from this have "cursor m' \<noteq> - 1" by (auto simp: slice_index_def split: if_splits)
  ultimately show ?thesis by (simp add: Cur_def)
next
  case False
  with assms show ?thesis by (auto simp: Cur_def split: option.splits)
qed

lemma Tree_Cur_again:
  assumes "Tree_Cur t = Return tok t'"
  shows "Tree_Cur t' = Return tok t'"
proof -
  from assms obtain m' where c: "Cur (pager t) = Some (tok, m')" and t': "t' = t\<lparr>pager := m'\<rparr>"
    by (auto simp: Tree_Cur_def split: option.splits)
  from Cur_again [OF c] t' show ?thesis by (simp add: Tree_Cur_def)
qed

lemma Return_fuel_pos: "run_call_fuel e k c t = Return x t' \<Longrightarrow> \<exists>j. k = Suc j"
  by (cases k) simp_all

text \<open>
  Claim C9. In the loop of \<open>O\<close>, with the node \<open>n\<close> accumulated so far: when the
  current token is the end of input, the end of the statement, \<open>FROM\<close>, a comma, \<open>IF\<close>,
  \<open>AS\<close>, \<open>SELECT\<close> or \<open>LIMIT\<close>, the loop returns \<open>n\<close> without a panic, and the token
  is still the current token afterwards. So \<open>O\<close> returns what its first operand
  returned when that operand ends before such a token.
\<close>

theorem O_returns_at_clause_terminator:
  assumes "Tree_Cur t1 = Return tok t2"
    and "T tok \<in> {TokenEOF, TokenEOS, TokenFrom, TokenComma, TokenIf, TokenAs, TokenSelect,
                   TokenLimit}"
  shows "O_loop e (Suc k) depth n t1 = Return n t2 \<and> Tree_Cur t2 = Return tok t2 \<and>
         (Tree_A e (Suc k) depth t = Return n t1 \<longrightarrow>
            Tree_O e (Suc (Suc k)) depth t = Return n t2)"
proof -
  have l: "O_loop e (Suc k) depth n t1 = Return n t2"
    using assms by (auto simp: O_loop_def)
  moreover have "Tree_Cur t2 = Return tok t2" using assms(1) by (rule Tree_Cur_again)
  moreover have "Tree_O e (Suc (Suc k)) depth t = Return n t2"
    if "Tree_A e (Suc k) depth t = Return n t1"
    using that l by (simp add: Tree_O_Suc)
  ultimately show ?thesis by blast
qed

text \<open>An instance: \<open>x FROM\<close>, where \<open>O\<close> returns the identity \<open>x\<close> and \<open>FROM\<close> stays
  the current token.\<close>

theorem O_returns_at_clause_terminator_witness:
  "returned (Tree_A env0 9 0
      (fresh_tree False [mk_token TokenIdentity 0 ''x'', mk_token TokenFrom 2 ''FROM''])) =
     Some (Some (IdentityNode 0 ''x'')) \<and>
   returned (Tree_O env0 10 0
      (fresh_tree False [mk_token TokenIdentity 0 ''x'', mk_token TokenFrom 2 ''FROM''])) =
     Some (Some (IdentityNode 0 ''x'')) \<and>
   map_option (\<lambda>t. returned (Tree_Cur t)) (tree_of (Tree_O env0 10 0
      (fresh_tree False [mk_token TokenIdentity 0 ''x'', mk_token TokenFrom 2 ''FROM'']))) =
     Some (Some (mk_token TokenFrom 2 ''FROM''))"
proof -
  let ?t = "fresh_tree False [mk_token TokenIdentity 0 ''x'', mk_token TokenFrom 2 ''FROM'']"
  let ?n = "Some (IdentityNode 0 ''x'')"
  let ?from = "mk_token TokenFrom 2 ''FROM''"
  let ?t1 = "the (tree_of (Tree_A env0 9 0 ?t))"
  let ?t2 = "the (tree_of (Tree_Cur ?t1))"
  have ra: "returned (Tree_A env0 9 0 ?t) = Some ?n"
    by (simp add: parser_eval cong: and_then_weak_cong)
  then have a: "Tree_A env0 (Suc 8) 0 ?t = Return ?n ?t1"
    by (simp add: is_Return)
  have c: "Tree_Cur ?t1 = Return ?from ?t2"
    by (rule is_Return) (simp add: parser_eval cong: and_then_weak_cong)
  have m: "T ?from \<in> {TokenEOF, TokenEOS, TokenFrom, TokenComma, TokenIf, TokenAs, TokenSelect,
                        TokenLimit}"
    by (simp add: mk_token_def)
  from O_returns_at_clause_terminator [OF c m, of env0 8 0 ?n ?t] a
  have "Tree_O env0 10 0 ?t = Return ?n ?t2" and "Tree_Cur ?t2 = Return ?from ?t2"
    by simp_all
  with ra show ?thesis by (simp add: returned_def tree_of_def)
qed

section \<open>\<open>BETWEEN\<close> makes a ternary node\<close>

lemma Tree_P_raise:
  assumes "Tree_P e k depth t = Return n t'" and "k \<le> k'"
  shows "Tree_P e k' depth t = Return n t'"
  using run_call_fuel_mono [of k k' e "P_call depth" t] assms by (simp add: Tree_P_def)

lemma C_loop_stops:
  assumes "Tree_Cur t = Return z t'"
    and "T z \<notin> {TokenEqual, TokenEqualEqual, TokenNE, TokenGT, TokenGE, TokenLE, TokenLT,
                  TokenLike, TokenBetween, TokenIN}"
  shows "C_loop e (Suc k) depth n t = Return n t'"
  using assms by (auto simp: C_loop_def)

lemma A_loop_stops:
  assumes "Tree_Cur t = Return z t'" and "T z \<notin> {TokenLogicAnd, TokenAnd}"
  shows "A_loop e (Suc k) depth n t = Return n t'"
  using assms by (auto simp: A_loop_def)

lemma O_loop_stops:
  assumes "Tree_Cur t = Return z t'"
    and "T z \<notin> {TokenLogicOr, TokenOr, TokenCommentSingleLine}"
  shows "O_loop e (Suc k) depth n t = Return n t'"
  using assms by (auto simp: O_loop_def)

lemma C_loop_between:
  assumes "Tree_Cur t1 = Return cur t2" and "T cur = TokenBetween"
    and "Tree_Next t2 = Return x t3"
    and "Tree_P e k depth t3 = Return n2 t4"
    and "Tree_Cur t4 = Return a t5" and "T a = TokenLogicAnd"
    and "Tree_Next t5 = Return y t6"
    and "Tree_Cur t6 = Return c t7"
    and "Tree_Peek t7 = Return pk t8"
    and "Tree_P e k (depth + 1) t8 = Return n3 t9"
  shows "C_loop e (Suc k) depth n1 t1 = C_loop e k depth (Some (TriNode cur n1 n2 n3)) t9"
  using assms by (simp add: C_loop_def Tree_P_def Tree_expect_def NewTriNode_def)

text \<open>
  Claim C4. A token stream of the shape \<open>e1 BETWEEN e2 AND e3\<close>: from the tree \<open>t\<close>,
  \<open>P\<close> parses the operand \<open>n1\<close>; the current token is then \<open>BETWEEN\<close>; after it
  \<open>P\<close> parses \<open>n2\<close>; the current token is then the keyword \<open>AND\<close>; after it (and
  after the \<open>Cur\<close> and \<open>Peek\<close> of the log line) \<open>P\<close> parses \<open>n3\<close>; and the token that
  follows continues none of the loops of \<open>C\<close>, \<open>A\<close> and \<open>O\<close>. Then \<open>O\<close> returns the
  ternary node of \<open>BETWEEN\<close> with the operands \<open>n1\<close>, \<open>n2\<close>, \<open>n3\<close>: no binary node is
  made for the \<open>AND\<close>.
\<close>

theorem between_parses_to_TriNode:
  assumes "Tree_P e k depth t = Return n1 t1"
    and "Tree_Cur t1 = Return cur t2" and "T cur = TokenBetween"
    and "Tree_Next t2 = Return x t3"
    and "Tree_P e k depth t3 = Return n2 t4"
    and "Tree_Cur t4 = Return a t5" and "T a = TokenLogicAnd"
    and "Tree_Next t5 = Return y t6"
    and "Tree_Cur t6 = Return c t7"
    and "Tree_Peek t7 = Return pk t8"
    and "Tree_P e k (depth + 1) t8 = Return n3 t9"
    and "Tree_Cur t9 = Return z t10"
    and "T z \<notin> {TokenEqual, TokenEqualEqual, TokenNE, TokenGT, TokenGE, TokenLE, TokenLT,
                  TokenLike, TokenBetween, TokenIN, TokenLogicAnd, TokenAnd, TokenLogicOr,
                  TokenOr, TokenCommentSingleLine}"
  shows "Tree_O e (k + 4) depth t = Return (Some (TriNode cur n1 n2 n3)) t10"
proof -
  let ?tri = "Some (TriNode cur n1 n2 n3)"
  from assms(1) obtain j where k: "k = Suc j" by (auto simp: Tree_P_def dest: Return_fuel_pos)
  have p1: "Tree_P e (Suc k) depth t = Return n1 t1"
    using assms(1) by (rule Tree_P_raise) simp
  have stop: "C_loop e k depth ?tri t9 = Return ?tri t10"
    unfolding k using assms(12,13) by (intro C_loop_stops) auto
  have "C_loop e (Suc k) depth n1 t1 = Return ?tri t10"
    using C_loop_between [OF assms(2-11)] stop by simp
  with p1 have c: "Tree_C e (Suc (Suc k)) depth t = Return ?tri t10"
    by (simp add: Tree_C_Suc)
  have z: "Tree_Cur t10 = Return z t10" using assms(12) by (rule Tree_Cur_again)
  have "A_loop e (Suc (Suc k)) depth ?tri t10 = Return ?tri t10"
    using z assms(13) by (intro A_loop_stops) auto
  with c have a: "Tree_A e (Suc (Suc (Suc k))) depth t = Return ?tri t10"
    by (simp add: Tree_A_Suc)
  have "O_loop e (Suc (Suc (Suc k))) depth ?tri t10 = Return ?tri t10"
    using z assms(13) by (intro O_loop_stops) auto
  with a have "Tree_O e (Suc (Suc (Suc (Suc k)))) depth t = Return ?tri t10"
    by (simp add: Tree_O_Suc)
  then show ?thesis by (simp add: eval_nat_numeral)
qed
text \<open>An instance: \<open>x BETWEEN 1 AND 10\<close>.\<close>

theorem between_parses_to_TriNode_witness:
  "returned (Tree_P env0 5 0 (fresh_tree False
      [mk_token TokenIdentity 0 ''x'', mk_token TokenBetween 2 ''BETWEEN'',
       mk_token TokenInteger 10 ''1'', mk_token TokenLogicAnd 12 ''AND'',
       mk_token TokenInteger 16 ''10''])) = Some (Some (IdentityNode 0 ''x'')) \<and>
   returned (Tree_O env0 9 0 (fresh_tree False
      [mk_token TokenIdentity 0 ''x'', mk_token TokenBetween 2 ''BETWEEN'',
       mk_token TokenInteger 10 ''1'', mk_token TokenLogicAnd 12 ''AND'',
       mk_token TokenInteger 16 ''10''])) =
     Some (Some (TriNode (mk_token TokenBetween 2 ''BETWEEN'') (Some (IdentityNode 0 ''x''))
       (Some (NumberNode 10 ''1'')) (Some (NumberNode 16 ''10''))))"
proof -
  let ?t = "fresh_tree False
      [mk_token TokenIdentity 0 ''x'', mk_token TokenBetween 2 ''BETWEEN'',
       mk_token TokenInteger 10 ''1'', mk_token TokenLogicAnd 12 ''AND'',
       mk_token TokenInteger 16 ''10'']"
  let ?between = "mk_token TokenBetween 2 ''BETWEEN''"
  let ?one = "mk_token TokenInteger 10 ''1''"
  let ?and = "mk_token TokenLogicAnd 12 ''AND''"
  let ?ten = "mk_token TokenInteger 16 ''10''"
  let ?n1 = "Some (IdentityNode 0 ''x'')"
  let ?n2 = "Some (NumberNode 10 ''1'')"
  let ?n3 = "Some (NumberNode 16 ''10'')"
  let ?t1 = "the (tree_of (Tree_P env0 5 0 ?t))"
  let ?t2 = "the (tree_of (Tree_Cur ?t1))"
  let ?t3 = "the (tree_of (Tree_Next ?t2))"
  let ?t4 = "the (tree_of (Tree_P env0 5 0 ?t3))"
  let ?t5 = "the (tree_of (Tree_Cur ?t4))"
  let ?t6 = "the (tree_of (Tree_Next ?t5))"
  let ?t7 = "the (tree_of (Tree_Cur ?t6))"
  let ?t8 = "the (tree_of (Tree_Peek ?t7))"
  let ?t9 = "the (tree_of (Tree_P env0 5 (0 + 1) ?t8))"
  let ?t10 = "the (tree_of (Tree_Cur ?t9))"
  have r1: "returned (Tree_P env0 5 0 ?t) = Some ?n1"
    by (simp add: parser_eval cong: and_then_weak_cong)
  have h1: "Tree_P env0 5 0 ?t = Return ?n1 ?t1" using r1 by (rule is_Return)
  have h2: "Tree_Cur ?t1 = Return ?between ?t2"
    by (rule is_Return) (simp add: parser_eval cong: and_then_weak_cong)
  have h3: "Tree_Next ?t2 = Return ?one ?t3"
    by (rule is_Return) (simp add: parser_eval cong: and_then_weak_cong)
  have h4: "Tree_P env0 5 0 ?t3 = Return ?n2 ?t4"
    by (rule is_Return) (simp add: parser_eval cong: and_then_weak_cong)
  have h5: "Tree_Cur ?t4 = Return ?and ?t5"
    by (rule is_Return) (simp add: parser_eval cong: and_then_weak_cong)
  have h6: "Tree_Next ?t5 = Return ?ten ?t6"
    by (rule is_Return) (simp add: parser_eval cong: and_then_weak_cong)
  have h7: "Tree_Cur ?t6 = Return ?ten ?t7"
    by (rule is_Return) (simp add: parser_eval cong: and_then_weak_cong)
  have h8: "Tree_Peek ?t7 = Return eof_token ?t8"
    by (rule is_Return) (simp add: parser_eval cong: and_then_weak_cong)
  have h9: "Tree_P env0 5 (0 + 1) ?t8 = Return ?n3 ?t9"
    by (rule is_Return) (simp add: parser_eval cong: and_then_weak_cong)
  have h10: "Tree_Cur ?t9 = Return eof_token ?t10"
    by (rule is_Return) (simp add: parser_eval cong: and_then_weak_cong)
  have b: "T ?between = TokenBetween" and a: "T ?and = TokenLogicAnd"
    by (simp_all add: mk_token_def)
  have z: "T eof_token \<notin> {TokenEqual, TokenEqualEqual, TokenNE, TokenGT, TokenGE, TokenLE,
      TokenLT, TokenLike, TokenBetween, TokenIN, TokenLogicAnd, TokenAnd, TokenLogicOr,
      TokenOr, TokenCommentSingleLine}"
    by (simp add: eof_token_def)
  have "Tree_O env0 (5 + 4) 0 ?t = Return (Some (TriNode ?between ?n1 ?n2 ?n3)) ?t10"
    by (rule between_parses_to_TriNode [OF h1 h2 b h3 h4 h5 a h6 h7 h8 h9 h10 z])
  with r1 show ?thesis by (simp add: returned_def)
qed

section \<open>Unknown functions\<close>

lemma bind_lax_same:
  assumes "lax_same m m'"
    and "\<And>x y s. map_option shape x = map_option shape y \<Longrightarrow> \<not> runCheck s \<Longrightarrow>
           lax_same (f x s) (f' y s)"
  shows "lax_same (and_then m f) (and_then m' f')"
  using assms by (cases m; cases m') (auto simp: lax_same_def same_shape_def lax_def)

lemma bind_token:
  assumes "lax m"
    and "\<And>x s. \<not> runCheck s \<Longrightarrow> lax_same (f x s) (f' x s)"
  shows "lax_same (and_then m f) (and_then m f')"
  using assms by (cases m) (auto simp: lax_same_def same_shape_def lax_def)

lemma lax_Tree_Cur: "\<not> runCheck t \<Longrightarrow> lax (Tree_Cur t)"
  by (auto simp: lax_def Tree_Cur_def split: option.splits)

lemma lax_Tree_Next: "\<not> runCheck t \<Longrightarrow> lax (Tree_Next t)"
  by (auto simp: lax_def Tree_Next_def split: option.splits)

lemma lax_Tree_Peek: "\<not> runCheck t \<Longrightarrow> lax (Tree_Peek t)"
  by (auto simp: lax_def Tree_Peek_def split: option.splits)

lemma lax_Tree_expect: "\<not> runCheck t \<Longrightarrow> lax (Tree_expect e ty ctx t)"
  by (auto simp: lax_def Tree_expect_def Tree_Cur_def Tree_unexpected_def Tree_errorf_def
      split: option.splits)

lemma Tree_unexpected_funcs [simp]: "Tree_unexpected (e\<lparr>funcs := r\<rparr>) = Tree_unexpected e"
  by (simp add: Tree_unexpected_def fun_eq_iff)

lemma Tree_expect_funcs [simp]: "Tree_expect (e\<lparr>funcs := r\<rparr>) = Tree_expect e"
  by (simp add: Tree_expect_def fun_eq_iff cong: if_cong)

lemma NewNumber_funcs [simp]: "NewNumber (e\<lparr>funcs := r\<rparr>) = NewNumber e"
  by (simp add: NewNumber_def fun_eq_iff)

lemma shape_Append:
  "shape m = shape m' \<Longrightarrow> map_option shape n = map_option shape n' \<Longrightarrow>
   shape (Append m n) = shape (Append m' n')"
  by (cases m; cases m') auto

lemma shape_FuncNode_append:
  "shape m = shape m' \<Longrightarrow> map_option shape n = map_option shape n' \<Longrightarrow>
   shape (FuncNode_append m n) = shape (FuncNode_append m' n')"
  by (cases m; cases m') auto

lemma shape_set_Paren:
  "map_option shape n = map_option shape n' \<Longrightarrow>
   map_option shape (set_Paren n) = map_option shape (set_Paren n')"
  apply (cases n; cases n'; simp)
  subgoal for a b by (cases a; cases b) auto
  done

lemma lax_same_Panic: "lax_same (Panic p t) (Panic p t)"
  by (simp add: lax_same_def same_shape_def lax_def)

lemma lax_same_errorf: "lax_same (Tree_errorf m t) (Tree_errorf m t)"
  by (simp add: lax_same_def same_shape_def lax_def Tree_errorf_def)

lemma lax_same_error: "lax_same (Tree_error m t) (Tree_error m t)"
  by (simp add: Tree_error_def lax_same_errorf)

lemma lax_same_unexpected: "lax_same (Tree_unexpected e tok c t) (Tree_unexpected e tok c t)"
  by (simp add: Tree_unexpected_def lax_same_errorf)

lemma lax_same_Return:
  "map_option shape x = map_option shape y \<Longrightarrow> \<not> runCheck t \<Longrightarrow> lax_same (Return x t) (Return y t)"
  by (simp add: lax_same_def same_shape_def lax_def)

lemmas lax_intros = bind_lax_same bind_token lax_Tree_Cur lax_Tree_Next lax_Tree_Peek
  lax_Tree_expect lax_same_Panic lax_same_errorf lax_same_error lax_same_unexpected lax_same_Return

lemma None_iff2: "map_option shape x = map_option shape y \<Longrightarrow> (y = None) = (x = None)"
  by (cases x; cases y) auto

lemmas node_defs = NewBinaryNode_def NewTriNode_def NewUnary_def NewMultiArgNode_def
  NewFuncNode_def NewStringNode_def NewIdentityNode_def

lemma grammar_lax_same:
  assumes run: "\<And>c c' t. call_shape c = call_shape c' \<Longrightarrow> \<not> runCheck t \<Longrightarrow>
             lax_same (run c t) (run' c' t)"
    and c: "call_shape c = call_shape c'" and t: "\<not> runCheck t"
  shows "lax_same (grammar e run c t) (grammar (e\<lparr>funcs := r\<rparr>) run' c' t)"
proof (cases c)
  case (O_call d)
  with c have c': "c' = O_call d" by (cases c') auto
  show ?thesis unfolding O_call c'
    by (auto simp del: insert_iff simp: node_defs IsEnd_def getFunction_def Let_def t 
          intro!: lax_intros run shape_Append shape_FuncNode_append shape_set_Paren
          dest: None_iff2 split: sum.splits option.splits)
next
  case (A_call d)
  with c have c': "c' = A_call d" by (cases c') auto
  show ?thesis unfolding A_call c'
    by (auto simp del: insert_iff simp: node_defs IsEnd_def getFunction_def Let_def t 
          intro!: lax_intros run shape_Append shape_FuncNode_append shape_set_Paren
          dest: None_iff2 split: sum.splits option.splits)
next
  case (C_call d)
  with c have c': "c' = C_call d" by (cases c') auto
  show ?thesis unfolding C_call c'
    by (auto simp del: insert_iff simp: node_defs IsEnd_def getFunction_def Let_def t 
          intro!: lax_intros run shape_Append shape_FuncNode_append shape_set_Paren
          dest: None_iff2 split: sum.splits option.splits)
next
  case (P_call d)
  with c have c': "c' = P_call d" by (cases c') auto
  show ?thesis unfolding P_call c'
    by (auto simp del: insert_iff simp: node_defs IsEnd_def getFunction_def Let_def t 
          intro!: lax_intros run shape_Append shape_FuncNode_append shape_set_Paren
          dest: None_iff2 split: sum.splits option.splits)
next
  case (M_call d)
  with c have c': "c' = M_call d" by (cases c') auto
  show ?thesis unfolding M_call c'
    by (auto simp del: insert_iff simp: node_defs IsEnd_def getFunction_def Let_def t 
          intro!: lax_intros run shape_Append shape_FuncNode_append shape_set_Paren
          dest: None_iff2 split: sum.splits option.splits)
next
  case (F_call d)
  with c have c': "c' = F_call d" by (cases c') auto
  show ?thesis unfolding F_call c'
    by (auto simp del: insert_iff simp: node_defs IsEnd_def getFunction_def Let_def t 
          intro!: lax_intros run shape_Append shape_FuncNode_append shape_set_Paren
          dest: None_iff2 split: sum.splits option.splits)
next
  case (v_call d)
  with c have c': "c' = v_call d" by (cases c') auto
  show ?thesis unfolding v_call c'
    by (auto simp del: insert_iff simp: node_defs IsEnd_def getFunction_def Let_def t 
          intro!: lax_intros run shape_Append shape_FuncNode_append shape_set_Paren
          dest: None_iff2 split: sum.splits option.splits)
next
  case (O_loop_call d n)
  with c obtain n' where c': "c' = O_loop_call d n'"
    and n: "map_option shape n = map_option shape n'"
    by (cases c') auto
  show ?thesis unfolding O_loop_call c'
    by (auto simp del: insert_iff simp: node_defs IsEnd_def getFunction_def Let_def t n
          intro!: lax_intros run shape_Append shape_FuncNode_append shape_set_Paren
          dest: None_iff2 split: sum.splits option.splits)
next
  case (A_loop_call d n)
  with c obtain n' where c': "c' = A_loop_call d n'"
    and n: "map_option shape n = map_option shape n'"
    by (cases c') auto
  show ?thesis unfolding A_loop_call c'
    by (auto simp del: insert_iff simp: node_defs IsEnd_def getFunction_def Let_def t n
          intro!: lax_intros run shape_Append shape_FuncNode_append shape_set_Paren
          dest: None_iff2 split: sum.splits option.splits)
next
  case (C_loop_call d n)
  with c obtain n' where c': "c' = C_loop_call d n'"
    and n: "map_option shape n = map_option shape n'"
    by (cases c') auto
  show ?thesis unfolding C_loop_call c'
    by (auto simp del: insert_iff simp: node_defs IsEnd_def getFunction_def Let_def t n
          intro!: lax_intros run shape_Append shape_FuncNode_append shape_set_Paren
          dest: None_iff2 split: sum.splits option.splits)
next
  case (P_loop_call d n)
  with c obtain n' where c': "c' = P_loop_call d n'"
    and n: "map_option shape n = map_option shape n'"
    by (cases c') auto
  show ?thesis unfolding P_loop_call c'
    by (auto simp del: insert_iff simp: node_defs IsEnd_def getFunction_def Let_def t n
          intro!: lax_intros run shape_Append shape_FuncNode_append shape_set_Paren
          dest: None_iff2 split: sum.splits option.splits)
next
  case (M_loop_call d n)
  with c obtain n' where c': "c' = M_loop_call d n'"
    and n: "map_option shape n = map_option shape n'"
    by (cases c') auto
  show ?thesis unfolding M_loop_call c'
    by (auto simp del: insert_iff simp: node_defs IsEnd_def getFunction_def Let_def t n
          intro!: lax_intros run shape_Append shape_FuncNode_append shape_set_Paren
          dest: None_iff2 split: sum.splits option.splits)
next
  case (MultiArg_call n operator d)
  with c obtain n' where c': "c' = MultiArg_call n' operator d"
    and n: "map_option shape n = map_option shape n'"
    by (cases c') auto
  show ?thesis unfolding MultiArg_call c'
    by (auto simp del: insert_iff simp: node_defs IsEnd_def getFunction_def Let_def t n
          intro!: lax_intros run shape_Append shape_FuncNode_append shape_set_Paren
          dest: None_iff2 split: sum.splits option.splits)
next
  case (MultiArg_loop_call d n)
  with c obtain n' where c': "c' = MultiArg_loop_call d n'" and n: "shape n = shape n'"
    by (cases c') auto
  show ?thesis unfolding MultiArg_loop_call c'
    by (auto simp del: insert_iff simp: node_defs IsEnd_def getFunction_def Let_def t n
          intro!: lax_intros run shape_Append shape_FuncNode_append shape_set_Paren
          dest: None_iff2 split: sum.splits option.splits)
next
  case (Func_call d tok)
  with c have c': "c' = Func_call d tok" by (cases c') auto
  show ?thesis unfolding Func_call c'
    by (auto simp del: insert_iff simp: node_defs IsEnd_def getFunction_def Let_def t 
          intro!: lax_intros run shape_Append shape_FuncNode_append shape_set_Paren
          dest: None_iff2 split: sum.splits option.splits)
next
  case (Func_loop_call d n)
  with c obtain n' where c': "c' = Func_loop_call d n'" and n: "shape n = shape n'"
    by (cases c') auto
  show ?thesis unfolding Func_loop_call c'
    by (auto simp del: insert_iff simp: node_defs IsEnd_def getFunction_def Let_def t n
          intro!: lax_intros run shape_Append shape_FuncNode_append shape_set_Paren
          dest: None_iff2 split: sum.splits option.splits)
qed

lemma run_call_fuel_lax_same:
  "call_shape c = call_shape c' \<Longrightarrow> \<not> runCheck t \<Longrightarrow>
   lax_same (run_call_fuel e k c t) (run_call_fuel (e\<lparr>funcs := r\<rparr>) k c' t)"
proof (induction k arbitrary: c c' t)
  case 0
  show ?case by (simp add: lax_same_def same_shape_def lax_def)
next
  case (Suc k)
  show ?case
    unfolding run_call_fuel.simps
  proof (rule grammar_lax_same)
    show "lax_same (run_call_fuel e k c t) (run_call_fuel (e\<lparr>funcs := r\<rparr>) k c' t)"
      if "call_shape c = call_shape c'" and "\<not> runCheck t" for c c' t
      using that by (rule Suc.IH)
  qed (use Suc.prems in auto)
qed

lemma head_bind: "(\<And>y s. head_is p nm fd (f y s)) \<Longrightarrow> head_is p nm fd (and_then m f)"
  by (cases m) (auto simp: head_is_def)

lemma head_Return: "head_is p nm fd (Return (Some (FuncNode p nm fd as)) t)"
  by (simp add: head_is_def)

lemma head_unexpected: "head_is p nm fd (Tree_unexpected e tok c t)"
  by (simp add: head_is_def Tree_unexpected_def Tree_errorf_def)

lemma Func_loop_head:
  "head_is p nm fd (run_call_fuel e k (Func_loop_call depth (FuncNode p nm fd as)) t)"
proof (induction k arbitrary: as t)
  case 0
  show ?case by (simp add: head_is_def)
next
  case (Suc k)
  show ?case
    by (auto simp del: insert_iff simp: Let_def
          intro!: head_bind head_Return head_unexpected Suc.IH)
qed

lemma Func_loop_keeps_head:
  "run_call_fuel e k (Func_loop_call depth (FuncNode p nm fd as)) t = Return x t' \<Longrightarrow>
   \<exists>as'. x = Some (FuncNode p nm fd as')"
  using Func_loop_head [of p nm fd e k depth as t] by (simp add: head_is_def)

lemma Tree_Peek_runCheck: "Tree_Peek t = Return pk t1 \<Longrightarrow> runCheck t1 = runCheck t"
  by (auto simp: Tree_Peek_def split: option.splits)



















text \<open>
  \<open>Func\<close> at any place of an expression, called on a name token that is followed by a
  left parenthesis and whose lower-cased name is not in the registry. When \<open>runCheck\<close>
  is set it panics with the error \<open>expr: non existent function\<close> and the name, and the
  root is nil. When \<open>runCheck\<close> is not set, the outcome is the outcome in a registry that
  knows the name, up to the descriptors in the tree, and the node returned is the function
  node of the name with the descriptor that carries just the name.
\<close>

theorem Func_on_unknown_name:
  assumes "Tree_Peek t = Return pk t1" and "T pk = TokenLeftParenthesis"
    and "funcs e (to_lower e (V tok)) = None"
  shows "(runCheck t \<longrightarrow>
            Tree_Func e (Suc k) depth tok t =
              Panic (ErrorValue (''expr: non existent function '' @ V tok)) (t1\<lparr>Root := None\<rparr>)) \<and>
         (\<not> runCheck t \<longrightarrow>
            same_shape (Tree_Func e (Suc k) depth tok t)
              (Tree_Func (e\<lparr>funcs := (funcs e)(to_lower e (V tok) \<mapsto> fd)\<rparr>) (Suc k) depth tok t) \<and>
            (\<forall>n t'. Tree_Func e (Suc k) depth tok t = Return n t' \<longrightarrow>
               (\<exists>args. n = Some (FuncNode (Pos tok) (V tok) \<lparr>Name = V tok, Impl = None\<rparr> args))))"
proof (intro conjI impI allI)
  assume "runCheck t"
  with assms Tree_Peek_runCheck [OF assms(1)]
  show "Tree_Func e (Suc k) depth tok t =
          Panic (ErrorValue (''expr: non existent function '' @ V tok)) (t1\<lparr>Root := None\<rparr>)"
    by (simp add: Tree_Func_def Tree_errorf_def getFunction_def)
next
  assume "\<not> runCheck t"
  then have "lax_same (run_call_fuel e (Suc k) (Func_call depth tok) t)
          (run_call_fuel (e\<lparr>funcs := (funcs e)(to_lower e (V tok) \<mapsto> fd)\<rparr>) (Suc k)
             (Func_call depth tok) t)"
    by (intro run_call_fuel_lax_same) simp_all
  then show "same_shape (Tree_Func e (Suc k) depth tok t)
          (Tree_Func (e\<lparr>funcs := (funcs e)(to_lower e (V tok) \<mapsto> fd)\<rparr>) (Suc k) depth tok t)"
    by (simp add: lax_same_def Tree_Func_def)
next
  fix n t'
  let ?fn = "FuncNode (Pos tok) (V tok) \<lparr>Name = V tok, Impl = None\<rparr> []"
  assume l: "\<not> runCheck t" and r: "Tree_Func e (Suc k) depth tok t = Return n t'"
  from l Tree_Peek_runCheck [OF assms(1)] have "\<not> runCheck t1" by simp
  with assms have "Tree_Func e (Suc k) depth tok t =
      and_then (Tree_Next t1) (\<lambda>_ t.
      and_then (Tree_expect e TokenLeftParenthesis ''func'' t) (\<lambda>_ t.
        run_call_fuel e k (Func_loop_call depth ?fn) t))"
    by (simp add: Tree_Func_def NewFuncNode_def getFunction_def)
  moreover have "head_is (Pos tok) (V tok) \<lparr>Name = V tok, Impl = None\<rparr> \<dots>"
    by (intro head_bind Func_loop_head)
  ultimately have "head_is (Pos tok) (V tok) \<lparr>Name = V tok, Impl = None\<rparr>
      (Tree_Func e (Suc k) depth tok t)"
    by simp
  with r show "\<exists>args. n = Some (FuncNode (Pos tok) (V tok) \<lparr>Name = V tok, Impl = None\<rparr> args)"
    by (simp add: head_is_def)
qed

text \<open>An instance: \<open>no_such_fn(1)\<close> with the empty registry, in both modes.\<close>

theorem Func_on_unknown_name_witness:
  "panicked (Tree_Func env0 4 0 (mk_token TokenUdfExpr 0 ''no_such_fn'')
      (at_first_token True
        [mk_token TokenUdfExpr 0 ''no_such_fn'', mk_token TokenLeftParenthesis 10 ''('',
         mk_token TokenInteger 11 ''1'', mk_token TokenRightParenthesis 12 '')''])) =
     Some (ErrorValue ''expr: non existent function no_such_fn'') \<and>
   same_shape
     (Tree_Func env0 9 0 (mk_token TokenUdfExpr 0 ''no_such_fn'')
        (at_first_token False
          [mk_token TokenUdfExpr 0 ''no_such_fn'', mk_token TokenLeftParenthesis 10 ''('',
           mk_token TokenInteger 11 ''1'', mk_token TokenRightParenthesis 12 '')'']))
     (Tree_Func
        (env0\<lparr>funcs := (funcs env0)(''no_such_fn'' \<mapsto>
           \<lparr>Name = ''no_such_fn'', Impl = Some 0\<rparr>)\<rparr>)
        9 0 (mk_token TokenUdfExpr 0 ''no_such_fn'')
        (at_first_token False
          [mk_token TokenUdfExpr 0 ''no_such_fn'', mk_token TokenLeftParenthesis 10 ''('',
           mk_token TokenInteger 11 ''1'', mk_token TokenRightParenthesis 12 '')''])) \<and>
   returned
     (Tree_Func env0 9 0 (mk_token TokenUdfExpr 0 ''no_such_fn'')
        (at_first_token False
          [mk_token TokenUdfExpr 0 ''no_such_fn'', mk_token TokenLeftParenthesis 10 ''('',
           mk_token TokenInteger 11 ''1'', mk_token TokenRightParenthesis 12 '')''])) =
     Some (Some (FuncNode 0 ''no_such_fn'' \<lparr>Name = ''no_such_fn'', Impl = None\<rparr>
       [Some (NumberNode 11 ''1'')]))"
proof -
  let ?ts = "[mk_token TokenUdfExpr 0 ''no_such_fn'', mk_token TokenLeftParenthesis 10 ''('',
         mk_token TokenInteger 11 ''1'', mk_token TokenRightParenthesis 12 '')'']"
  let ?tok = "mk_token TokenUdfExpr 0 ''no_such_fn''"
  let ?lp = "mk_token TokenLeftParenthesis 10 ''(''"
  let ?fd = "\<lparr>Name = ''no_such_fn'', Impl = Some 0\<rparr>"
  have v: "V ?tok = ''no_such_fn''" by (simp add: mk_token_def)
  have g: "funcs env0 (to_lower env0 (V ?tok)) = None" by (simp add: env0_def)
  have w: "to_lower env0 ''no_such_fn'' = ''no_such_fn''"
    by (simp add: env0_def ToLower_def lower_byte_def)
  have lp: "T ?lp = TokenLeftParenthesis" by (simp add: mk_token_def)
  have strict: "runCheck (at_first_token True ?ts)"
    and lax: "\<not> runCheck (at_first_token False ?ts)"
    by (simp_all add: parser_eval)
  have p1: "Tree_Peek (at_first_token True ?ts) =
      Return ?lp (the (tree_of (Tree_Peek (at_first_token True ?ts))))"
    by (rule is_Return) (simp add: parser_eval)
  have p2: "Tree_Peek (at_first_token False ?ts) =
      Return ?lp (the (tree_of (Tree_Peek (at_first_token False ?ts))))"
    by (rule is_Return) (simp add: parser_eval)
  from Func_on_unknown_name [OF p1 lp g, of 3 0] strict
  have a: "panicked (Tree_Func env0 4 0 ?tok (at_first_token True ?ts)) =
      Some (ErrorValue ''expr: non existent function no_such_fn'')"
    by (simp add: panicked_def v)
  from Func_on_unknown_name [OF p2 lp g, of 8 0 ?fd] lax
  have b: "same_shape (Tree_Func env0 9 0 ?tok (at_first_token False ?ts))
     (Tree_Func (env0\<lparr>funcs := (funcs env0)(''no_such_fn'' \<mapsto> ?fd)\<rparr>)
        9 0 ?tok (at_first_token False ?ts))"
    by (simp add: v w)
  have c: "returned (Tree_Func env0 9 0 ?tok (at_first_token False ?ts)) =
     Some (Some (FuncNode 0 ''no_such_fn'' \<lparr>Name = ''no_such_fn'', Impl = None\<rparr>
       [Some (NumberNode 11 ''1'')]))"
    by (simp add: parser_eval ToLower_def lower_byte_def cong: and_then_weak_cong)
  from a b c show ?thesis by blast
qed

section \<open>No run-time fault in the parser\<close>

lemma token_ok_Cur: "pager_inv (pager t) \<Longrightarrow> token_ok (Tree_Cur t)"
  using Cur_ok [of "pager t"] by (auto simp: token_ok_def Tree_Cur_def)

lemma token_ok_Next: "pager_inv (pager t) \<Longrightarrow> token_ok (Tree_Next t)"
  using Next_ok [of "pager t"] by (auto simp: token_ok_def Tree_Next_def)

lemma token_ok_Peek: "pager_inv (pager t) \<Longrightarrow> token_ok (Tree_Peek t)"
  using Peek_ok [of "pager t"] by (auto simp: token_ok_def Tree_Peek_def)

lemma token_ok_expect: "pager_inv (pager t) \<Longrightarrow> token_ok (Tree_expect e ty ctx t)"
  using Cur_ok [of "pager t"]
  by (auto simp: token_ok_def Tree_expect_def Tree_Cur_def Tree_unexpected_def Tree_errorf_def)

lemma no_fault_token_bind:
  assumes "token_ok m" and "\<And>x s. pager_inv (pager s) \<Longrightarrow> no_fault (f x s)"
  shows "no_fault (and_then m f)"
  using assms by (cases m) (auto simp: token_ok_def no_fault_def)

lemma no_fault_bind:
  assumes "no_fault m" and "\<And>x s. pager_inv (pager s) \<Longrightarrow> x \<noteq> None \<Longrightarrow> no_fault (f x s)"
  shows "no_fault (and_then m f)"
  using assms by (cases m) (auto simp: no_fault_def)

lemma no_fault_Return: "pager_inv (pager t) \<Longrightarrow> x \<noteq> None \<Longrightarrow> no_fault (Return x t)"
  by (simp add: no_fault_def)

lemma no_fault_Panic: "p \<noteq> RuntimeError \<Longrightarrow> no_fault (Panic p t)"
  by (simp add: no_fault_def)

lemma no_fault_errorf: "no_fault (Tree_errorf m t)"
  by (simp add: no_fault_def Tree_errorf_def)

lemma no_fault_error: "no_fault (Tree_error m t)"
  by (simp add: Tree_error_def no_fault_errorf)

lemma no_fault_unexpected: "no_fault (Tree_unexpected e tok c t)"
  by (simp add: Tree_unexpected_def no_fault_errorf)

lemma set_Paren_Some: "\<exists>n'. set_Paren (Some n) = Some n'"
  by (cases n) simp_all

lemmas no_fault_intros = no_fault_token_bind no_fault_bind token_ok_Cur token_ok_Next
  token_ok_Peek token_ok_expect no_fault_Return no_fault_Panic no_fault_errorf no_fault_error
  no_fault_unexpected

lemma grammar_no_fault:
  assumes run: "\<And>c t. call_ok c \<Longrightarrow> pager_inv (pager t) \<Longrightarrow> no_fault (run c t)"
    and c: "call_ok c" and t: "pager_inv (pager t)"
  shows "no_fault (grammar e run c t)"
  using c t
  by (cases c)
     (auto simp del: insert_iff simp: Let_def IsEnd_def set_Paren_Some
        intro!: no_fault_intros run split: sum.splits option.splits)

lemma run_call_fuel_no_fault:
  "call_ok c \<Longrightarrow> pager_inv (pager t) \<Longrightarrow> no_fault (run_call_fuel e k c t)"
proof (induction k arbitrary: c t)
  case 0
  show ?case by (simp add: no_fault_def)
next
  case (Suc k)
  show ?case
    unfolding run_call_fuel.simps
  proof (rule grammar_no_fault)
    show "no_fault (run_call_fuel e k c t)" if "call_ok c" and "pager_inv (pager t)" for c t
      using that by (rule Suc.IH)
  qed (use Suc.prems in auto)
qed

text \<open>
  \<open>BuildTree\<close> on a fresh pager, over any lexer and with any fuel, never panics with a
  run-time error: no token is read out of the range of the buffer, and the check is never
  called on a nil root. Every panic is the string or the error of a parse error.
\<close>

theorem BuildTree_no_runtime_fault:
  "panicked (BuildTree e k rc (NewTree (NewLexTokenPager l))) \<noteq> Some RuntimeError"
proof -
  let ?t = "(NewTree (NewLexTokenPager l))\<lparr>runCheck := rc\<rparr>"
  have "pager_inv (pager ?t)" by (simp add: NewTree_def pager_inv_New)
  then have "no_fault (run_call_fuel e k (O_call 0) ?t)"
    by (intro run_call_fuel_no_fault) simp_all
  then show ?thesis
    by (cases "run_call_fuel e k (O_call 0) ?t")
       (auto simp: BuildTree_def Tree_O_def Let_def panicked_def no_fault_def Tree_error_def
          Tree_errorf_def split: option.splits)
qed

section \<open>A parenthesised \<open>BETWEEN\<close> loses its parentheses\<close>

lemmas emit_eval = node_String_def Tree_String_def identity_left_def identity_right_def
  NewDefaultWriter_def defaultDialect_WriteIdentity_def defaultDialect_WriteLeftRightIdentity_def
  defaultDialect_WriteLiteral_def defaultDialect_WriteNumber_def Buffer_Write_def
  LiteralQuoteEscape_def LiteralQuoteEscapeBuf_def IdentityMaybeEscapeBuf_def
  needs_quote_def is_digit_byte_def is_ident_byte_def Let_def mk_token_def

text \<open>
  Claim C2. The token lists of \<open>a = (b BETWEEN 1 AND 2)\<close> and of
  \<open>a = b BETWEEN 1 AND 2\<close> parse to different trees: the first to the comparison of
  \<open>a\<close> with the ternary node, the second to the ternary node over the comparison. \<open>F\<close>
  raises the parenthesised flag of a binary node only, so the first tree does not record
  its parentheses, and both trees have the same text. Whatever the lexer makes of that
  text, parsing it cannot give back both trees: the round trip fails for one of the two
  inputs.
\<close>

theorem group_around_between_is_lost:
  "parse_root
     [mk_token TokenIdentity 0 ''a'', mk_token TokenEqual 2 ''='',
      mk_token TokenLeftParenthesis 4 ''('', mk_token TokenIdentity 5 ''b'',
      mk_token TokenBetween 7 ''BETWEEN'', mk_token TokenInteger 15 ''1'',
      mk_token TokenLogicAnd 17 ''AND'', mk_token TokenInteger 21 ''2'',
      mk_token TokenRightParenthesis 22 '')''] =
     Some (BinaryNode (mk_token TokenEqual 2 ''='') (Some (IdentityNode 0 ''a''))
       (Some (TriNode (mk_token TokenBetween 7 ''BETWEEN'') (Some (IdentityNode 5 ''b''))
          (Some (NumberNode 15 ''1'')) (Some (NumberNode 21 ''2'')))) False) \<and>
   parse_root
     [mk_token TokenIdentity 0 ''a'', mk_token TokenEqual 2 ''='',
      mk_token TokenIdentity 4 ''b'', mk_token TokenBetween 6 ''BETWEEN'',
      mk_token TokenInteger 14 ''1'', mk_token TokenLogicAnd 16 ''AND'',
      mk_token TokenInteger 20 ''2''] =
     Some (TriNode (mk_token TokenBetween 6 ''BETWEEN'')
       (Some (BinaryNode (mk_token TokenEqual 2 ''='') (Some (IdentityNode 0 ''a''))
          (Some (IdentityNode 4 ''b'')) False))
       (Some (NumberNode 14 ''1'')) (Some (NumberNode 20 ''2''))) \<and>
   parse_String
     [mk_token TokenIdentity 0 ''a'', mk_token TokenEqual 2 ''='',
      mk_token TokenLeftParenthesis 4 ''('', mk_token TokenIdentity 5 ''b'',
      mk_token TokenBetween 7 ''BETWEEN'', mk_token TokenInteger 15 ''1'',
      mk_token TokenLogicAnd 17 ''AND'', mk_token TokenInteger 21 ''2'',
      mk_token TokenRightParenthesis 22 '')''] =
   parse_String
     [mk_token TokenIdentity 0 ''a'', mk_token TokenEqual 2 ''='',
      mk_token TokenIdentity 4 ''b'', mk_token TokenBetween 6 ''BETWEEN'',
      mk_token TokenInteger 14 ''1'', mk_token TokenLogicAnd 16 ''AND'',
      mk_token TokenInteger 20 ''2''] \<and>
   parse_String
     [mk_token TokenIdentity 0 ''a'', mk_token TokenEqual 2 ''='',
      mk_token TokenIdentity 4 ''b'', mk_token TokenBetween 6 ''BETWEEN'',
      mk_token TokenInteger 14 ''1'', mk_token TokenLogicAnd 16 ''AND'',
      mk_token TokenInteger 20 ''2''] \<noteq> None"
proof -
  let ?grouped = "[mk_token TokenIdentity 0 ''a'', mk_token TokenEqual 2 ''='',
      mk_token TokenLeftParenthesis 4 ''('', mk_token TokenIdentity 5 ''b'',
      mk_token TokenBetween 7 ''BETWEEN'', mk_token TokenInteger 15 ''1'',
      mk_token TokenLogicAnd 17 ''AND'', mk_token TokenInteger 21 ''2'',
      mk_token TokenRightParenthesis 22 '')'']"
  let ?flat = "[mk_token TokenIdentity 0 ''a'', mk_token TokenEqual 2 ''='',
      mk_token TokenIdentity 4 ''b'', mk_token TokenBetween 6 ''BETWEEN'',
      mk_token TokenInteger 14 ''1'', mk_token TokenLogicAnd 16 ''AND'',
      mk_token TokenInteger 20 ''2'']"
  have "parse_root ?grouped =
     Some (BinaryNode (mk_token TokenEqual 2 ''='') (Some (IdentityNode 0 ''a''))
       (Some (TriNode (mk_token TokenBetween 7 ''BETWEEN'') (Some (IdentityNode 5 ''b''))
          (Some (NumberNode 15 ''1'')) (Some (NumberNode 21 ''2'')))) False)"
    by (simp add: parse_root_def parser_eval cong: and_then_weak_cong)
  moreover have "parse_root ?flat =
     Some (TriNode (mk_token TokenBetween 6 ''BETWEEN'')
       (Some (BinaryNode (mk_token TokenEqual 2 ''='') (Some (IdentityNode 0 ''a''))
          (Some (IdentityNode 4 ''b'')) False))
       (Some (NumberNode 14 ''1'')) (Some (NumberNode 20 ''2'')))"
    by (simp add: parse_root_def parser_eval cong: and_then_weak_cong)
  moreover have "parse_String ?grouped = Some ''a = b BETWEEN 1 AND 2''"
    by (simp add: parse_String_def parser_eval emit_eval cong: and_then_weak_cong)
  moreover have "parse_String ?flat = Some ''a = b BETWEEN 1 AND 2''"
    by (simp add: parse_String_def parser_eval emit_eval cong: and_then_weak_cong)
  ultimately show ?thesis by simp
qed

section \<open>Panics leave \<open>BuildTree\<close>\<close>

text \<open>
  Whenever \<open>BuildTree\<close> returns, the error it returns is nil, and with \<open>runCheck\<close> the
  root is not nil: it has no way to return an error.
\<close>

theorem BuildTree_returns_only_nil:
  assumes "BuildTree e k rc t = Return err t'"
  shows "err = None \<and> (rc \<longrightarrow> Root t' \<noteq> None)"
  using assms
  by (auto simp: BuildTree_def Let_def and_then_Return_iff Tree_error_def Tree_errorf_def
      split: if_splits option.splits)

text \<open>An instance: \<open>x FROM\<close> with the check on.\<close>

theorem BuildTree_returns_only_nil_witness:
  "returned (BuildTree env0 10 True
      (fresh_tree False [mk_token TokenIdentity 0 ''x'', mk_token TokenFrom 2 ''FROM''])) =
     Some None \<and>
   map_option Root (tree_of (BuildTree env0 10 True
      (fresh_tree False [mk_token TokenIdentity 0 ''x'', mk_token TokenFrom 2 ''FROM'']))) =
     Some (Some (IdentityNode 0 ''x''))"
proof -
  let ?r = "BuildTree env0 10 True
      (fresh_tree False [mk_token TokenIdentity 0 ''x'', mk_token TokenFrom 2 ''FROM''])"
  have r: "map_option Root (tree_of ?r) = Some (Some (IdentityNode 0 ''x''))"
    by (simp add: parser_eval cong: and_then_weak_cong)
  have "returned ?r \<noteq> None"
    by (simp add: parser_eval cong: and_then_weak_cong)
  then obtain err where re: "returned ?r = Some err" by blast
  then have e: "?r = Return err (the (tree_of ?r))" by (rule is_Return)
  from BuildTree_returns_only_nil [OF e] have "err = None" by simp
  with re r show ?thesis by simp
qed

text \<open>
  Claim C1. \<open>ParseExpression\<close> on the empty input panics with the string of \<open>F\<close>, and on
  \<open>no_such_fn(1)\<close> it panics with the error of \<open>errorf\<close>: in both cases \<open>BuildTree\<close>
  returns nothing, the panic leaves it.
\<close>

theorem BuildTree_lets_panics_escape:
  "panicked (ParseExpression env0 20 (lexer_of [])) = Some (StringValue ''unexpected token  '') \<and>
   panicked (ParseExpression env0 20 (lexer_of
      [mk_token TokenUdfExpr 0 ''no_such_fn'', mk_token TokenLeftParenthesis 10 ''('',
       mk_token TokenInteger 11 ''1'', mk_token TokenRightParenthesis 12 '')''])) =
     Some (ErrorValue ''expr: non existent function no_such_fn'') \<and>
   returned (ParseExpression env0 20 (lexer_of
      [mk_token TokenUdfExpr 0 ''no_such_fn'', mk_token TokenLeftParenthesis 10 ''('',
       mk_token TokenInteger 11 ''1'', mk_token TokenRightParenthesis 12 '')''])) = None"
  by (simp add: parser_eval ToLower_def lower_byte_def cong: and_then_weak_cong)

end
